theory Spec2Isabelle
  imports Complex_Main
begin

section \<open>Numbers, library routines and the environment\<close>

text \<open>
  The engine of \<^verbatim>\<open>fabia_approx.c\<close> computes on C \<^verbatim>\<open>float\<close> arrays. The model is
  polymorphic in the type \<open>'a\<close> of numbers: the definitions use only the operation
  symbols \<open>0\<close>, \<open>1\<close>, \<open>+\<close>, \<open>-\<close>, \<open>*\<close>, \<open>/\<close>, \<open>\<bar>_\<bar>\<close> and \<open><\<close>, \<open>\<le>\<close> of \<open>'a\<close>
  and assume no law about them. A theorem whose sort constraint is this bare
  signature follows from the control and data flow of the code alone; a theorem
  that needs laws of arithmetic or of the order says so in its sort constraint
  (\<open>linorder\<close>, \<open>linordered_field\<close>, ...), and is then a statement about the
  program run in exact arithmetic. C's \<^verbatim>\<open>float\<close> and \<^verbatim>\<open>double\<close> are not told apart.
  Exact arithmetic has no rounding, no overflow and no NaN, and in a field of HOL
  \<open>x / 0 = 0\<close>, which is not what the machine computes: the theorems about signs
  assume what keeps the denominators they depend on positive, and the example runs
  divide by non-zero numbers only.

  What the code takes from outside the file is collected in one record:
  the constant \<^verbatim>\<open>MACHINE_EPS\<close> (the \<^verbatim>\<open>float\<close> written \<^verbatim>\<open>1e-7\<close>), the libm functions
  \<^verbatim>\<open>pow\<close> and \<^verbatim>\<open>sqrt\<close>, the conversion of an \<^verbatim>\<open>int\<close> to a number, the LAPACK routines
  \<^verbatim>\<open>potrf\<close> and \<^verbatim>\<open>potri\<close> (called with \<^verbatim>\<open>uplo = "l"\<close>; they return the new contents of
  the matrix and \<^verbatim>\<open>info\<close>), the generator \<^verbatim>\<open>rand_normal\<close> (the value of its \<open>c\<close>-th
  call), OpenMP's \<^verbatim>\<open>omp_get_thread_num\<close> (the thread that runs index \<open>j\<close> of the
  parallel loop of iteration \<open>iter\<close>; the final pass is loop \<open>0\<close>), and the outcome of
  the seven calls of \<^verbatim>\<open>malloc\<close>, numbered \<open>0..6\<close> in program order
  (\<^verbatim>\<open>sum1_\<close>, \<^verbatim>\<open>sum2_\<close>, \<^verbatim>\<open>XX\<close>, \<^verbatim>\<open>LPsi\<close>, \<^verbatim>\<open>LPsiL\<close>, \<^verbatim>\<open>iLPsiL_\<close>, \<^verbatim>\<open>iLPsiLX_\<close>).
\<close>

record 'a env =
  MACHINE_EPS :: 'a
  pow :: "'a \<Rightarrow> 'a \<Rightarrow> 'a"
  sqrt_f :: "'a \<Rightarrow> 'a"
  of_int_f :: "int \<Rightarrow> 'a"
  potrf :: "nat \<Rightarrow> 'a list \<Rightarrow> 'a list \<times> int"
  potri :: "nat \<Rightarrow> 'a list \<Rightarrow> 'a list \<times> int"
  rand_normal :: "nat \<Rightarrow> 'a"
  omp_get_thread_num :: "nat \<Rightarrow> nat \<Rightarrow> nat"
  malloc_ok :: "nat \<Rightarrow> bool"

text \<open>
  The two ways a run ends without returning: a failed \<^verbatim>\<open>assert\<close> aborts the
  process, and a store through a null pointer is a crash.
\<close>

datatype error = AssertionFailed | NullPointer

text \<open>What the engine prints or reports, in order.\<close>

datatype 'a event =
    OutOfMemory
  | BailingOut 'a 'a
  | ResetClusters nat nat
  | UpdateUI nat
  | TimingSummary


section \<open>The E-step kernel \<^verbatim>\<open>approx_estimateZ\<close>\<close>

text \<open>
  The arrays the kernel writes. The caller passes pointers into larger arrays
  (\<^verbatim>\<open>Z+j*k\<close>, \<^verbatim>\<open>lapla+j*k\<close>, a thread's part of the scratch buffers); the model
  passes the part of the array that starts there. \<^verbatim>\<open>sum1\<close> and \<^verbatim>\<open>sum2\<close> may be
  \<^verbatim>\<open>NULL\<close>, which is \<open>None\<close>.
\<close>

record 'a ez =
  ez_z :: "'a list"
  ez_lapla :: "'a list"
  ez_iLPsiL :: "'a list"
  ez_iLPsiLX :: "'a list"
  ez_sum1 :: "'a list option"
  ez_sum2 :: "'a list option"

text \<open>Lines 66--69: the reciprocal of the diagonal, and \<open>z\<close> cleared.\<close>

definition ez_diag ::
  "('a::{zero,one,plus,inverse}) env \<Rightarrow> nat \<Rightarrow> 'a list \<Rightarrow> 'a ez \<Rightarrow> 'a ez" where
  "ez_diag env k LPsiL a =
     fold (\<lambda>i a. a\<lparr>ez_iLPsiL := (ez_iLPsiL a)[i := 1 / (LPsiL ! i + ez_lapla a ! i + MACHINE_EPS env)],
                   ez_z := (ez_z a)[i := 0]\<rparr>)
       [0..<k] a"

text \<open>Lines 71--76: \<open>iLPsiLX\<close> and the posterior mean \<open>z\<close>.\<close>

definition ez_mean ::
  "nat \<Rightarrow> nat \<Rightarrow> ('a::{plus,times}) list \<Rightarrow> 'a list \<Rightarrow> 'a ez \<Rightarrow> 'a ez" where
  "ez_mean n k x LPsi a =
     fold (\<lambda>i a.
       fold (\<lambda>j a.
         let a1 = a\<lparr>ez_iLPsiLX := (ez_iLPsiLX a)[i * k + j := LPsi ! (i * k + j) * ez_iLPsiL a ! j]\<rparr>
         in a1\<lparr>ez_z := (ez_z a1)[j := ez_z a1 ! j + ez_iLPsiLX a1 ! (i * k + j) * x ! i]\<rparr>)
         [0..<k] a)
       [0..<n] a"

text \<open>
  Modelled from the spec: the BLAS routine \<^verbatim>\<open>ger\<close> is outside the repository; the
  spec's words for the call on line 81 are \<open>sum1 += x \<cdot> z\<^sup>T\<close> (rank-1 update, \<open>n\<times>k\<close>,
  column-major with leading dimension \<open>n\<close>).
\<close>

definition ger ::
  "nat \<Rightarrow> nat \<Rightarrow> ('a::{plus,times}) list \<Rightarrow> 'a list \<Rightarrow> 'a list \<Rightarrow> 'a list" where
  "ger n k x z A =
     fold (\<lambda>j A. fold (\<lambda>i A. A[i + j * n := A ! (i + j * n) + x ! i * z ! j]) [0..<n] A)
       [0..<k] A"

text \<open>Lines 83--92: the second moments and the new variational parameters.\<close>

definition ez_moments ::
  "('a::{plus,times,uminus,ord}) env \<Rightarrow> nat \<Rightarrow> 'a \<Rightarrow> 'a \<Rightarrow> 'a list \<Rightarrow> 'a ez \<Rightarrow> 'a list \<times> 'a ez" where
  "ez_moments env k spz lap sum2 a =
     fold (\<lambda>i (sum2, a).
       let sum2 = fold (\<lambda>j sum2. sum2[i * k + j := sum2 ! (i * k + j) + ez_z a ! i * ez_z a ! j])
                    [0..<k] sum2;
           sum2 = sum2[i * k + i := sum2 ! (i * k + i) + ez_iLPsiL a ! i];
           a = a\<lparr>ez_iLPsiL := (ez_iLPsiL a)[i := ez_iLPsiL a ! i + ez_z a ! i * ez_z a ! i]\<rparr>;
           s = pow env (MACHINE_EPS env + ez_iLPsiL a ! i) (- spz)
       in (sum2, a\<lparr>ez_lapla := (ez_lapla a)[i := (if s < lap then lap else s)]\<rparr>))
       [0..<k] (sum2, a)"

definition approx_estimateZ ::
  "('a::{zero,one,plus,uminus,times,inverse,ord}) env \<Rightarrow> nat \<Rightarrow> nat \<Rightarrow> 'a list \<Rightarrow> 'a list \<Rightarrow> 'a list \<Rightarrow>
     'a \<Rightarrow> 'a \<Rightarrow> 'a ez \<Rightarrow> 'a ez" where
  "approx_estimateZ env n k x LPsi LPsiL spz lap a =
     (let a = ez_mean n k x LPsi (ez_diag env k LPsiL a)
      in case (ez_sum1 a, ez_sum2 a) of
           (Some sum1, Some sum2) \<Rightarrow>
             (let sum1 = ger n k x (ez_z a) sum1;
                  (sum2, a) = ez_moments env k spz lap sum2 a
              in a\<lparr>ez_sum1 := Some sum1, ez_sum2 := Some sum2\<rparr>)
         | _ \<Rightarrow> a)"


section \<open>The engine \<^verbatim>\<open>approx_fabia_cm_f\<close>\<close>

subsection \<open>Arrays and pointers into them\<close>

text \<open>
  \<open>slice off len xs\<close> is what a callee sees of \<open>xs\<close> through the pointer \<^verbatim>\<open>xs + off\<close>
  when it uses \<open>len\<close> cells, and \<open>splice off ys xs\<close> is \<open>xs\<close> after the callee has left
  \<open>ys\<close> there. \<open>memset0 m xs\<close> is \<^verbatim>\<open>memset(xs, 0, m*sizeof(float))\<close>.
\<close>

definition slice :: "nat \<Rightarrow> nat \<Rightarrow> 'a list \<Rightarrow> 'a list" where
  "slice off len xs = take len (drop off xs)"

definition splice :: "nat \<Rightarrow> 'a list \<Rightarrow> 'a list \<Rightarrow> 'a list" where
  "splice off ys xs = take off xs @ ys @ drop (off + length ys) xs"

definition memset0 :: "nat \<Rightarrow> ('a::zero) list \<Rightarrow> 'a list" where
  "memset0 m xs = fold (\<lambda>i xs. xs[i := 0]) [0..<m] xs"

subsection \<open>The steps of one run, in program order\<close>

text \<open>Lines 162--168: the mean square of every feature.\<close>

definition compute_XX ::
  "('a::{zero,plus,times,inverse}) env \<Rightarrow> nat \<Rightarrow> nat \<Rightarrow> 'a list \<Rightarrow> 'a list \<Rightarrow> 'a list" where
  "compute_XX env n l X XX =
     (let XX = memset0 n XX;
          XX = fold (\<lambda>i1 XX. fold (\<lambda>i2 XX. XX[i2 := XX ! i2 + X ! (i2 + i1 * n) * X ! (i2 + i1 * n)])
                                [0..<n] XX)
                 [0..<l] XX
      in fold (\<lambda>i2 XX. XX[i2 := XX ! i2 / of_int_f env (int l)]) [0..<n] XX)"

text \<open>Lines 175--181 (and 310--316): \<open>LPsi\<close>, stored transposed, and the diagonal \<open>LPsiL\<close>.\<close>

definition compute_LPsi ::
  "nat \<Rightarrow> nat \<Rightarrow> ('a::{zero,plus,times,inverse}) list \<Rightarrow> 'a list \<Rightarrow> 'a list \<times> 'a list \<Rightarrow> 'a list \<times> 'a list" where
  "compute_LPsi n k L Psi =
     fold (\<lambda>i1 (LPsi, LPsiL).
       fold (\<lambda>i2 (LPsi, LPsiL).
         let LPsi = LPsi[i2 * k + i1 := L ! (i2 + i1 * n) / Psi ! i2]
         in (LPsi, LPsiL[i1 := LPsiL ! i1 + L ! (i2 + i1 * n) * LPsi ! (i2 * k + i1)]))
         [0..<n] (LPsi, LPsiL[i1 := 0]))
       [0..<k]"

text \<open>Lines 203--211: the buffers of the threads \<open>1..nthreads-1\<close> added into the first.\<close>

definition reduce :: "nat \<Rightarrow> nat \<Rightarrow> ('a::plus) list \<Rightarrow> 'a list" where
  "reduce m nthreads buf =
     fold (\<lambda>i buf. fold (\<lambda>tid buf. buf[i := buf ! i + buf ! (i + tid * m)]) [1..<nthreads] buf)
       [0..<m] buf"

text \<open>
  Lines 28--41: \<^verbatim>\<open>invertCholesky\<close>. Each \<^verbatim>\<open>assert(!info)\<close> aborts the run when the
  routine before it reports a failure.
\<close>

definition invertCholesky :: "'a env \<Rightarrow> 'a list \<Rightarrow> nat \<Rightarrow> error + 'a list" where
  "invertCholesky env a n =
     (let (a, info) = potrf env n a in
      if info \<noteq> 0 then Inl AssertionFailed
      else
        let (a, info) = potri env n a in
        if info \<noteq> 0 then Inl AssertionFailed
        else Inr (fold (\<lambda>i1 a. fold (\<lambda>i2 a. a[i1 + i2 * n := a ! (i2 + i1 * n)]) [i1 + 1..<n] a)
                    [0..<n] a))"

text \<open>
  Modelled from the spec: the BLAS routine \<^verbatim>\<open>gemm\<close> is outside the repository; the
  spec's words for the call on line 216 are \<open>L_new = sum1 \<cdot> sum2\<^sup>-\<^sup>1\<close>
  (\<open>n\<times>k = n\<times>k \<cdot> k\<times>k\<close>), all three column-major.
\<close>

definition gemm ::
  "nat \<Rightarrow> nat \<Rightarrow> ('a::{zero,plus,times}) list \<Rightarrow> 'a list \<Rightarrow> 'a list \<Rightarrow> 'a list" where
  "gemm n k A B C =
     fold (\<lambda>j C. fold (\<lambda>i C.
         C[i + j * n := fold (\<lambda>p s. s + A ! (i + p * n) * B ! (p + j * k)) [0..<k] 0])
         [0..<n] C)
       [0..<k] C"

text \<open>Line 148: the switch the code wires to \<open>0\<close>.\<close>

definition non_negative :: int where
  "non_negative = 0"

text \<open>Lines 219--232: the shrinkage of \<open>L\<close>.\<close>

definition shrink ::
  "('a::{zero,plus,minus,uminus,times,abs,ord}) env \<Rightarrow> nat \<Rightarrow> nat \<Rightarrow> 'a list \<Rightarrow> 'a \<Rightarrow> 'a \<Rightarrow> 'a list \<Rightarrow> 'a list" where
  "shrink env n k Psi alpha spl L =
     fold (\<lambda>i2 L. fold (\<lambda>i1 L.
         let s = L ! (i1 + n * i2);
             sgn = of_int_f env ((if s > 0 then 1 else 0) - (if s < 0 then 1 else 0))
         in if non_negative \<le> 0 \<or> sgn > 0 then
              let t = \<bar>Psi ! i1 * alpha * pow env (MACHINE_EPS env + \<bar>s\<bar>) (- spl)\<bar>
              in if \<bar>s\<bar> > t then L[i1 + n * i2 := L ! (i1 + n * i2) - sgn * t]
                 else L[i1 + n * i2 := 0]
            else L[i1 + n * i2 := 0])
         [0..<n] L)
       [0..<k] L"

text \<open>Lines 238--250: the noise variances, and \<open>t\<close>, the largest \<open>\<bar>s\<bar>\<close> seen.\<close>

definition update_Psi ::
  "('a::{zero,plus,minus,times,inverse,abs,ord}) env \<Rightarrow> nat \<Rightarrow> nat \<Rightarrow> nat \<Rightarrow> 'a list \<Rightarrow> 'a \<Rightarrow>
     'a list \<Rightarrow> 'a list \<Rightarrow> 'a list \<Rightarrow> 'a list \<times> 'a" where
  "update_Psi env n k l XX eps L sum1 Psi =
     fold (\<lambda>i1 (Psi, t).
       let s = fold (\<lambda>i2 s. s + L ! (i1 + i2 * n) * sum1 ! (i1 + i2 * n)) [0..<k] 0;
           t = (if \<bar>s\<bar> > t then \<bar>s\<bar> else t);
           Psi = Psi[i1 := XX ! i1 - s / of_int_f env (int l)];
           Psi = (if Psi ! i1 < eps then Psi[i1 := eps] else Psi)
       in (Psi, t))
       [0..<n] (Psi, 0)"

text \<open>Lines 252--258: what the collapse exit stores.\<close>

definition flatten_Psi :: "nat \<Rightarrow> 'a \<Rightarrow> 'a list \<Rightarrow> 'a list" where
  "flatten_Psi n eps Psi = fold (\<lambda>i1 Psi. Psi[i1 := eps]) [0..<n] Psi"

definition flatten_lapla :: "nat \<Rightarrow> nat \<Rightarrow> 'a \<Rightarrow> 'a list \<Rightarrow> 'a list" where
  "flatten_lapla k l eps lapla =
     fold (\<lambda>j lapla. fold (\<lambda>i1 lapla. lapla[j * k + i1 := eps]) [0..<k] lapla) [0..<l] lapla"

text \<open>Lines 264--277: the rescaling done when \<^verbatim>\<open>scale\<close> is set.\<close>

definition rescale ::
  "('a::{zero,one,plus,uminus,times,inverse}) env \<Rightarrow> nat \<Rightarrow> nat \<Rightarrow> nat \<Rightarrow> 'a \<Rightarrow>
     'a list \<times> 'a list \<Rightarrow> 'a list \<times> 'a list" where
  "rescale env n k l spz =
     fold (\<lambda>i (L, lapla).
       let s = fold (\<lambda>j s. s + L ! (i * n + j) * L ! (i * n + j)) [0..<n] 0;
           s = 1 / (sqrt_f env (s / of_int_f env (int n)) + MACHINE_EPS env);
           L = fold (\<lambda>j L. L[i * n + j := L ! (i * n + j) * s]) [0..<n] L;
           s = pow env (s * s) (- spz);
           lapla = fold (\<lambda>j lapla. lapla[j * k + i := lapla ! (j * k + i) * s]) [0..<l] lapla
       in (L, lapla))
       [0..<k]"

text \<open>
  Lines 281--298: the reset of the all-zero columns. \<open>c\<close> counts the calls of
  \<^verbatim>\<open>rand_normal\<close>, \<open>nreset\<close> the columns reset.
\<close>

definition isZero :: "nat \<Rightarrow> ('a::zero) list \<Rightarrow> nat \<Rightarrow> bool" where
  "isZero n L i = list_all (\<lambda>j. L ! (j + i * n) = 0) [0..<n]"

definition reset_columns ::
  "('a::{zero,one}) env \<Rightarrow> nat \<Rightarrow> nat \<Rightarrow> nat \<Rightarrow> 'a list \<times> 'a list \<times> nat \<times> nat \<Rightarrow>
     'a list \<times> 'a list \<times> nat \<times> nat" where
  "reset_columns env n k l =
     fold (\<lambda>i (L, lapla, c, nreset).
       if isZero n L i then
         let (L, c) = fold (\<lambda>j (L, c). (L[i * n + j := rand_normal env c], c + 1)) [0..<n] (L, c);
             lapla = fold (\<lambda>j lapla. lapla[j * k + i := 1]) [0..<l] lapla
         in (L, lapla, c, nreset + 1)
       else (L, lapla, c, nreset))
       [0..<k]"


subsection \<open>The state of a run\<close>

text \<open>
  The arguments of \<^verbatim>\<open>approx_fabia_cm_f\<close> that the run only reads. The dimensions,
  \<^verbatim>\<open>cyc\<close> and \<^verbatim>\<open>nthreads\<close> are taken non-negative.
\<close>

record 'a params =
  p_k :: nat
  p_n :: nat
  p_l :: nat
  p_X :: "'a list"
  p_cyc :: nat
  p_alpha :: 'a
  p_eps :: 'a
  p_spl :: 'a
  p_spz :: 'a
  p_scale :: int
  p_lap :: 'a
  p_verbose :: int
  p_nthreads :: nat

text \<open>
  The four in/out arrays of the caller, the scratch buffers (\<^verbatim>\<open>sum1_\<close>, \<^verbatim>\<open>sum2_\<close>,
  \<^verbatim>\<open>iLPsiL_\<close> and \<^verbatim>\<open>iLPsiLX_\<close> hold one part per thread), the number of calls of
  \<^verbatim>\<open>rand_normal\<close> so far, and what has been printed.
\<close>

record 'a state =
  st_Psi :: "'a list"
  st_L :: "'a list"
  st_Z :: "'a list"
  st_lapla :: "'a list"
  st_LPsi :: "'a list"
  st_LPsiL :: "'a list"
  st_sum1 :: "'a list"
  st_sum2 :: "'a list"
  st_iLPsiL :: "'a list"
  st_iLPsiLX :: "'a list"
  st_rand :: nat
  st_out :: "'a event list"

text \<open>
  Lines 193--200 and 319--325: the body of the parallel loop over the samples.
  \<open>acc\<close> tells whether the accumulators are passed (the loop of an iteration) or
  \<^verbatim>\<open>NULL\<close> (the final pass). The threads write disjoint parts of the arrays, so the
  model runs the indices one after the other.
\<close>

definition estep_body ::
  "('a::{zero,one,plus,uminus,times,inverse,ord}) env \<Rightarrow> 'a params \<Rightarrow> bool \<Rightarrow> nat \<Rightarrow> nat \<Rightarrow>
     'a state \<Rightarrow> 'a state" where
  "estep_body env P acc iter j st =
     (let k = p_k P; n = p_n P;
          tid = omp_get_thread_num env iter j;
          a = approx_estimateZ env n k (slice (n * j) n (p_X P)) (st_LPsi st) (st_LPsiL st)
                (p_spz P) (p_lap P)
                \<lparr>ez_z = slice (j * k) k (st_Z st),
                 ez_lapla = slice (j * k) k (st_lapla st),
                 ez_iLPsiL = slice (tid * k) k (st_iLPsiL st),
                 ez_iLPsiLX = slice (tid * n * k) (n * k) (st_iLPsiLX st),
                 ez_sum1 = (if acc then Some (slice (tid * n * k) (n * k) (st_sum1 st)) else None),
                 ez_sum2 = (if acc then Some (slice (tid * k * k) (k * k) (st_sum2 st)) else None)\<rparr>
      in st\<lparr>st_Z := splice (j * k) (ez_z a) (st_Z st),
            st_lapla := splice (j * k) (ez_lapla a) (st_lapla st),
            st_iLPsiL := splice (tid * k) (ez_iLPsiL a) (st_iLPsiL st),
            st_iLPsiLX := splice (tid * n * k) (ez_iLPsiLX a) (st_iLPsiLX st),
            st_sum1 := (case ez_sum1 a of None \<Rightarrow> st_sum1 st
                        | Some sum1 \<Rightarrow> splice (tid * n * k) sum1 (st_sum1 st)),
            st_sum2 := (case ez_sum2 a of None \<Rightarrow> st_sum2 st
                        | Some sum2 \<Rightarrow> splice (tid * k * k) sum2 (st_sum2 st))\<rparr>)"

text \<open>
  Lines 175--211: the prelude, the E-step over all samples and the reduction. The
  result holds the reduced \<open>sum1\<close> and \<open>sum2\<close> in the first part of their buffers:
  it is the state in which \<^verbatim>\<open>invertCholesky\<close> is called.
\<close>

definition e_step ::
  "('a::{zero,one,plus,uminus,times,inverse,ord}) env \<Rightarrow> 'a params \<Rightarrow> nat \<Rightarrow> 'a state \<Rightarrow> 'a state" where
  "e_step env P iter st =
     (let k = p_k P; n = p_n P; l = p_l P; nthreads = p_nthreads P;
          (LPsi, LPsiL) = compute_LPsi n k (st_L st) (st_Psi st) (st_LPsi st, st_LPsiL st);
          st = st\<lparr>st_LPsi := LPsi, st_LPsiL := LPsiL,
                  st_sum1 := memset0 (nthreads * n * k) (st_sum1 st),
                  st_sum2 := memset0 (nthreads * k * k) (st_sum2 st)\<rparr>;
          st = st\<lparr>st_sum2 := fold (\<lambda>i sum2. sum2[i * k + i := p_eps P]) [0..<k] (st_sum2 st)\<rparr>;
          st = fold (estep_body env P True iter) [0..<l] st
      in st\<lparr>st_sum1 := reduce (n * k) nthreads (st_sum1 st),
            st_sum2 := reduce (k * k) nthreads (st_sum2 st)\<rparr>)"

text \<open>How an iteration of the EM loop ends: it goes on to the next, or leaves by \<^verbatim>\<open>break\<close>.\<close>

datatype flow = Next | Break

text \<open>
  Lines 213--250: the inverse of \<open>sum2\<close>, the new \<open>L\<close> with its shrinkage, and the new
  \<open>Psi\<close>. It returns the value computed for the variable \<open>t\<close> of the function
  with the state.
\<close>

definition m_update ::
  "('a::{zero,one,plus,minus,uminus,times,inverse,abs,ord}) env \<Rightarrow> 'a params \<Rightarrow> 'a list \<Rightarrow>
     'a state \<Rightarrow> error + 'a \<times> 'a state" where
  "m_update env P XX st =
     (let k = p_k P; n = p_n P; l = p_l P in
      case invertCholesky env (slice 0 (k * k) (st_sum2 st)) k of
        Inl e \<Rightarrow> Inl e
      | Inr sll \<Rightarrow>
         (let st = st\<lparr>st_sum2 := splice 0 sll (st_sum2 st)\<rparr>;
              L = gemm n k (st_sum1 st) (st_sum2 st) (st_L st);
              L = shrink env n k (st_Psi st) (p_alpha P) (p_spl P) L;
              (Psi, t) = update_Psi env n k l XX (p_eps P) L (st_sum1 st) (st_Psi st)
          in Inr (t, st\<lparr>st_L := L, st_Psi := Psi\<rparr>)))"

text \<open>Lines 252--259: what the collapse exit stores and prints before its \<^verbatim>\<open>break\<close>.\<close>

definition collapse_exit :: "'a params \<Rightarrow> 'a \<Rightarrow> 'a state \<Rightarrow> 'a state" where
  "collapse_exit P t st =
     st\<lparr>st_Psi := flatten_Psi (p_n P) (p_eps P) (st_Psi st),
        st_lapla := flatten_lapla (p_k P) (p_l P) (p_eps P) (st_lapla st),
        st_out := st_out st @ [BailingOut t (p_eps P)]\<rparr>"

text \<open>
  Lines 263--304: the rest of an iteration that goes on: the rescaling when
  \<^verbatim>\<open>scale\<close> is set, the reset of the all-zero columns, and the two reports.
\<close>

definition rescale_and_reset ::
  "('a::{zero,one,plus,uminus,times,inverse}) env \<Rightarrow> 'a params \<Rightarrow> nat \<Rightarrow> 'a state \<Rightarrow> 'a state" where
  "rescale_and_reset env P iter st =
     (let k = p_k P; n = p_n P; l = p_l P;
          (L, lapla) = (if p_scale P \<noteq> 0
                        then rescale env n k l (p_spz P) (st_L st, st_lapla st)
                        else (st_L st, st_lapla st));
          (L, lapla, c, nreset) = reset_columns env n k l (L, lapla, st_rand st, 0);
          out = st_out st @ (if nreset \<noteq> 0 then [ResetClusters iter nreset] else []);
          out = out @ (if p_verbose P \<noteq> 0 \<and> int iter mod p_verbose P = 0
                       then [UpdateUI iter] else [])
      in st\<lparr>st_L := L, st_lapla := lapla, st_rand := c, st_out := out\<rparr>)"

text \<open>Lines 213--305: the M-step, with the test on line 251 that leaves the loop.\<close>

definition m_step ::
  "('a::{zero,one,plus,minus,uminus,times,inverse,abs,ord}) env \<Rightarrow> 'a params \<Rightarrow> 'a list \<Rightarrow> nat \<Rightarrow>
     'a state \<Rightarrow> error + flow \<times> 'a \<times> 'a state" where
  "m_step env P XX iter st =
     (case m_update env P XX st of
        Inl e \<Rightarrow> Inl e
      | Inr (t, st) \<Rightarrow>
          if t < p_eps P then Inr (Break, t, collapse_exit P t st)
          else Inr (Next, t, rescale_and_reset env P iter st))"

text \<open>
  A store through a pointer that \<^verbatim>\<open>malloc\<close> returned as \<^verbatim>\<open>NULL\<close>: \<open>null_store env b m\<close>
  holds when block \<open>b\<close> was not allocated and \<open>m > 0\<close> of its cells are written.
\<close>

definition null_store :: "'a env \<Rightarrow> nat \<Rightarrow> nat \<Rightarrow> bool" where
  "null_store env b m = (\<not> malloc_ok env b \<and> 0 < m)"

text \<open>Lines 174--305: one iteration of the EM loop.\<close>

definition em_iteration ::
  "('a::{zero,one,plus,minus,uminus,times,inverse,abs,ord}) env \<Rightarrow> 'a params \<Rightarrow> 'a list \<Rightarrow> nat \<Rightarrow>
     'a state \<Rightarrow> error + flow \<times> 'a \<times> 'a state" where
  "em_iteration env P XX iter st =
     (let k = p_k P; n = p_n P; nthreads = p_nthreads P in
      if null_store env 4 k \<or> null_store env 3 (k * n)
         \<or> null_store env 0 (nthreads * n * k) \<or> null_store env 1 (nthreads * k * k)
      then Inl NullPointer
      else m_step env P XX iter (e_step env P iter st))"

text \<open>
  Lines 173--306: the EM loop from iteration \<open>iter\<close> on, with the current value of
  \<open>t\<close>. It returns the value of \<open>t\<close> and the state after the loop.
\<close>

function em_loop ::
  "('a::{zero,one,plus,minus,uminus,times,inverse,abs,ord}) env \<Rightarrow> 'a params \<Rightarrow> 'a list \<Rightarrow> nat \<Rightarrow>
     'a \<Rightarrow> 'a state \<Rightarrow> error + 'a \<times> 'a state" where
  "em_loop env P XX iter t st =
     (if iter \<le> p_cyc P then
        (case em_iteration env P XX iter st of
           Inl e \<Rightarrow> Inl e
         | Inr (Break, t, st) \<Rightarrow> Inr (t, st)
         | Inr (Next, t, st) \<Rightarrow> em_loop env P XX (iter + 1) t st)
      else Inr (t, st))"
  by pat_completeness auto
termination
  by (relation "measure (\<lambda>(env, P, XX, iter, t, st). p_cyc P + 1 - iter)") auto

declare em_loop.simps [simp del]

text \<open>
  The loop seen from outside: \<open>iteration_start env P XX st i\<close> is the state in which
  iteration \<open>i + 1\<close> starts when the loop is entered in \<open>st\<close>, if the iterations
  \<open>1..i\<close> were all run and none of them aborted or left by \<^verbatim>\<open>break\<close>.
\<close>

primrec iteration_start ::
  "('a::{zero,one,plus,minus,uminus,times,inverse,abs,ord}) env \<Rightarrow> 'a params \<Rightarrow> 'a list \<Rightarrow>
     'a state \<Rightarrow> nat \<Rightarrow> 'a state option" where
  "iteration_start env P XX st 0 = Some st"
| "iteration_start env P XX st (Suc i) =
     (case iteration_start env P XX st i of
        None \<Rightarrow> None
      | Some s \<Rightarrow>
          if Suc i \<le> p_cyc P then
            (case em_iteration env P XX (Suc i) s of
               Inr (Next, t, s') \<Rightarrow> Some s'
             | _ \<Rightarrow> None)
          else None)"

text \<open>Lines 308--335: the final E-only pass, or \<open>Z\<close> cleared, and the timing report.\<close>

definition last_update ::
  "('a::{zero,one,plus,uminus,times,inverse,ord}) env \<Rightarrow> 'a params \<Rightarrow> 'a \<Rightarrow> 'a state \<Rightarrow>
     error + 'a state" where
  "last_update env P t st =
     (let k = p_k P; n = p_n P; l = p_l P in
      if t \<ge> p_eps P then
        if null_store env 4 k \<or> null_store env 3 (k * n) then Inl NullPointer
        else
          (let (LPsi, LPsiL) = compute_LPsi n k (st_L st) (st_Psi st) (st_LPsi st, st_LPsiL st);
               st = st\<lparr>st_LPsi := LPsi, st_LPsiL := LPsiL\<rparr>;
               st = fold (estep_body env P False 0) [0..<l] st
           in Inr (st\<lparr>st_out := st_out st @ [TimingSummary]\<rparr>))
      else Inr (st\<lparr>st_Z := memset0 (k * l) (st_Z st), st_out := st_out st @ [TimingSummary]\<rparr>))"

text \<open>
  Lines 159--160: the parameters the loop reads, with \<open>lap\<close> raised to \<open>eps\<close>.
\<close>

definition run_params ::
  "nat \<Rightarrow> nat \<Rightarrow> nat \<Rightarrow> ('a::ord) list \<Rightarrow> nat \<Rightarrow> 'a \<Rightarrow> 'a \<Rightarrow> 'a \<Rightarrow> 'a \<Rightarrow> int \<Rightarrow> 'a \<Rightarrow> int \<Rightarrow> nat \<Rightarrow>
     'a params" where
  "run_params k n l X cyc alpha eps spl spz scale lap verbose nthreads =
     \<lparr>p_k = k, p_n = n, p_l = l, p_X = X, p_cyc = cyc, p_alpha = alpha,
      p_eps = eps, p_spl = spl, p_spz = spz, p_scale = scale,
      p_lap = (if lap < eps then eps else lap),
      p_verbose = verbose, p_nthreads = nthreads\<rparr>"

text \<open>
  Lines 119--125 and 170: the arrays of the caller and the blocks fresh from
  \<^verbatim>\<open>malloc\<close>, as the loop finds them. The contents of a fresh block are
  indeterminate; the model starts every block filled with \<open>0\<close>, and the code writes
  every cell before it reads it. \<^verbatim>\<open>iLPsiL_\<close> is cleared on line 170.
\<close>

definition entry_state ::
  "nat \<Rightarrow> nat \<Rightarrow> nat \<Rightarrow> ('a::zero) list \<Rightarrow> 'a list \<Rightarrow> 'a list \<Rightarrow> 'a list \<Rightarrow> 'a state" where
  "entry_state k n nthreads Psi L Z lapla =
     \<lparr>st_Psi = Psi, st_L = L, st_Z = Z, st_lapla = lapla,
      st_LPsi = replicate (k * n) 0, st_LPsiL = replicate k 0,
      st_sum1 = replicate (nthreads * n * k) 0, st_sum2 = replicate (nthreads * k * k) 0,
      st_iLPsiL = memset0 (nthreads * k) (replicate (nthreads * k) 0),
      st_iLPsiLX = replicate (nthreads * n * k) 0,
      st_rand = 0, st_out = []\<rparr>"

text \<open>
  Lines 115--345: the engine. It returns the state in which it leaves the arrays
  of the caller, or the way the process dies. \<^verbatim>\<open>free\<close> has no effect on the result.
\<close>

definition approx_fabia_cm_f ::
  "('a::{zero,one,plus,minus,uminus,times,inverse,abs,ord}) env \<Rightarrow> nat \<Rightarrow> nat \<Rightarrow> nat \<Rightarrow>
     'a list \<Rightarrow> 'a list \<Rightarrow> 'a list \<Rightarrow> 'a list \<Rightarrow> 'a list \<Rightarrow>
     nat \<Rightarrow> 'a \<Rightarrow> 'a \<Rightarrow> 'a \<Rightarrow> 'a \<Rightarrow> int \<Rightarrow> 'a \<Rightarrow> int \<Rightarrow> nat \<Rightarrow> error + 'a state" where
  "approx_fabia_cm_f env k n l X Psi L Z lapla cyc alpha eps spl spz scale lap verbose nthreads =
     (let st = entry_state k n nthreads Psi L Z lapla
      in if \<not> malloc_ok env 6 then
           Inr (st\<lparr>st_L := memset0 (n * k) L, st_Z := memset0 (k * l) Z,
                   st_out := [OutOfMemory]\<rparr>)
         else
           (let P = run_params k n l X cyc alpha eps spl spz scale lap verbose nthreads
            in if null_store env 2 n \<or> null_store env 5 (nthreads * k) then Inl NullPointer
               else
                 (case em_loop env P (compute_XX env n l X (replicate n 0)) 1 0 st of
                    Inl e \<Rightarrow> Inl e
                  | Inr (t, st) \<Rightarrow> last_update env P t st)))"


section \<open>Symmetric positive-definite matrices\<close>







section \<open>An environment in exact arithmetic\<close>

text \<open>
  For running the model on concrete inputs: the numbers are the reals,
  \<^verbatim>\<open>MACHINE_EPS\<close> is \<open>10\<^sup>-\<^sup>7\<close>, \<^verbatim>\<open>pow\<close> and \<^verbatim>\<open>sqrt\<close> are the real power and root,
  one thread runs every index, every \<^verbatim>\<open>malloc\<close> succeeds and \<^verbatim>\<open>rand_normal\<close>
  returns \<open>1/2\<close> every time. \<open>potrf_1\<close> and \<open>potri_1\<close> are the two LAPACK routines on
  a matrix of order 1: the factor of \<open>(a)\<close> is \<open>(\<surd>a)\<close> when \<open>a > 0\<close>, and the leading
  minor is reported (\<open>info = 1\<close>) otherwise; the inverse computed from the factor
  \<open>(c)\<close> is \<open>(1/c\<^sup>2)\<close>. The examples below use order 1 only; for a larger order
  the two functions report an illegal argument (\<open>info = -1\<close>).
\<close>

definition potrf_1 :: "nat \<Rightarrow> real list \<Rightarrow> real list \<times> int" where
  "potrf_1 n a =
     (if n = 0 then (a, 0)
      else if n = 1 then (if 0 < a ! 0 then (a[0 := sqrt (a ! 0)], 0) else (a, 1))
      else (a, - 1))"

definition potri_1 :: "nat \<Rightarrow> real list \<Rightarrow> real list \<times> int" where
  "potri_1 n a =
     (if n = 0 then (a, 0)
      else if n = 1 then (if a ! 0 = 0 then (a, 1) else (a[0 := 1 / (a ! 0 * a ! 0)], 0))
      else (a, - 1))"

definition real_env :: "real env" where
  "real_env =
     \<lparr>MACHINE_EPS = 1 / 10000000, pow = (powr), sqrt_f = sqrt, of_int_f = of_int,
      potrf = potrf_1, potri = potri_1, rand_normal = (\<lambda>c. 1 / 2),
      omp_get_thread_num = (\<lambda>iter j. 0), malloc_ok = (\<lambda>b. True)\<rparr>"


section \<open>Example runs\<close>

text \<open>
  One feature, one sample, one factor and one thread: \<open>X = (1)\<close>, \<open>Psi = (1)\<close>,
  \<open>L = (1)\<close>, \<open>Z = (0)\<close>, \<open>lapla = (1)\<close>, \<open>cyc = 1\<close>, \<open>alpha = 0\<close>, \<open>eps = 1/1000\<close>,
  \<open>spl = spz = 0\<close>, no rescaling, \<open>lap = 1/2\<close>, silent. These are the parameters,
  \<open>XX\<close> and the state with which the EM loop of that call starts.
\<close>

definition example_params :: "real params" where
  "example_params = run_params 1 1 1 [1] 1 0 (1 / 1000) 0 0 0 (1 / 2) 0 1"

definition example_XX :: "real list" where
  "example_XX = compute_XX real_env 1 1 [1] (replicate 1 0)"

definition example_entry :: "real state" where
  "example_entry = entry_state 1 1 1 [1] [1] [0] [1]"

text \<open>The value of \<open>t\<close> and the state after the one iteration of that run.\<close>

definition example_t :: real where
  "example_t = 100000000000000000 / 300400010040000001"

definition example_after :: "real state" where
  "example_after =
     \<lparr>st_Psi = [200400010040000001 / 300400010040000001],
      st_L = [200000010000000000 / 300400010040000001],
      st_Z = [10000000 / 20000001], st_lapla = [1], st_LPsi = [1],
      st_LPsiL = [1], st_sum1 = [10000000 / 20000001],
      st_sum2 = [400000040000001000 / 300400010040000001],
      st_iLPsiL = [300000010000000 / 400000040000001],
      st_iLPsiLX = [10000000 / 20000001], st_rand = 0, st_out = []\<rparr>"

text \<open>
  The same call on the data \<open>X = (0)\<close>: the loop collapses in its first iteration.
\<close>

definition collapse_params :: "real params" where
  "collapse_params = run_params 1 1 1 [0] 1 0 (1 / 1000) 0 0 0 (1 / 2) 0 1"

definition collapse_XX :: "real list" where
  "collapse_XX = compute_XX real_env 1 1 [0] (replicate 1 0)"

text \<open>The state of that run after the noise-variance update of iteration 1.\<close>

definition collapse_updated :: "real state" where
  "collapse_updated =
     \<lparr>st_Psi = [1 / 1000], st_L = [0], st_Z = [0], st_lapla = [1],
      st_LPsi = [1], st_LPsiL = [1], st_sum1 = [0],
      st_sum2 = [20000001000 / 10020000001],
      st_iLPsiL = [10000000 / 20000001],
      st_iLPsiLX = [10000000 / 20000001], st_rand = 0, st_out = []\<rparr>"







section \<open>Loops over arrays\<close>

lemma length_fold_upd [simp]:
  "length (fold (\<lambda>i xs. xs[f i := g i xs]) is xs) = length xs"
  by (induction "is" arbitrary: xs) auto

lemma nth_fold_set:
  "j < length xs \<Longrightarrow>
   fold (\<lambda>i xs. xs[i := f i]) [0..<m] xs ! j = (if j < m then f j else xs ! j)"
proof (induction m)
  case 0
  then show ?case by simp
next
  case (Suc m)
  have len: "length (fold (\<lambda>i xs. xs[i := f i]) [0..<m] xs) = length xs"
    by (rule length_fold_upd)
  show ?case using Suc len by (cases "j = m") auto
qed

lemma ez_diag_closed:
  "ez_diag env k LPsiL a =
     a\<lparr>ez_iLPsiL := fold (\<lambda>i xs. xs[i := 1 / (LPsiL ! i + ez_lapla a ! i + MACHINE_EPS env)]) [0..<k] (ez_iLPsiL a),
       ez_z := fold (\<lambda>i xs. xs[i := 0]) [0..<k] (ez_z a)\<rparr>"
  unfolding ez_diag_def by (induction k) simp_all


lemma nth_fold_modify:
  "j < length xs \<Longrightarrow>
   fold (\<lambda>i xs. xs[i := h i (xs ! i)]) [0..<m] xs ! j = (if j < m then h j (xs ! j) else xs ! j)"
proof (induction m)
  case 0
  then show ?case by simp
next
  case (Suc m)
  have len: "length (fold (\<lambda>i xs. xs[i := h i (xs ! i)]) [0..<m] xs) = length xs"
    by (rule length_fold_upd)
  show ?case using Suc len by (cases "j = m") auto
qed

lemma ez_mean_props:
  fixes a :: "('a::{plus,times}) ez"
  assumes len: "n * k \<le> length (ez_iLPsiLX a)"
  shows "ez_iLPsiL (ez_mean n k x LPsi a) = ez_iLPsiL a"
    and "ez_lapla (ez_mean n k x LPsi a) = ez_lapla a"
    and "ez_sum1 (ez_mean n k x LPsi a) = ez_sum1 a"
    and "ez_sum2 (ez_mean n k x LPsi a) = ez_sum2 a"
    and "length (ez_iLPsiLX (ez_mean n k x LPsi a)) = length (ez_iLPsiLX a)"
    and "length (ez_z (ez_mean n k x LPsi a)) = length (ez_z a)"
    and "j < k \<Longrightarrow> j < length (ez_z a) \<Longrightarrow>
         ez_z (ez_mean n k x LPsi a) ! j =
           foldl (\<lambda>s i. s + LPsi ! (i * k + j) * ez_iLPsiL a ! j * x ! i) (ez_z a ! j) [0..<n]"
proof -
  define body where "body = (\<lambda>i j (a::'a ez).
         let a1 = a\<lparr>ez_iLPsiLX := (ez_iLPsiLX a)[i * k + j := LPsi ! (i * k + j) * ez_iLPsiL a ! j]\<rparr>
         in a1\<lparr>ez_z := (ez_z a1)[j := ez_z a1 ! j + ez_iLPsiLX a1 ! (i * k + j) * x ! i]\<rparr>)"
  define run where "run = (\<lambda>m. fold (\<lambda>i a. fold (body i) [0..<k] a) [0..<m] a)"
  have mean: "ez_mean n k x LPsi a = run n"
    unfolding ez_mean_def run_def body_def ..
  have inner: "fold (body i) [0..<m] b =
      b\<lparr>ez_iLPsiLX := fold (\<lambda>j xs. xs[i * k + j := LPsi ! (i * k + j) * ez_iLPsiL b ! j]) [0..<m] (ez_iLPsiLX b),
        ez_z := fold (\<lambda>j zs. zs[j := zs ! j + LPsi ! (i * k + j) * ez_iLPsiL b ! j * x ! i]) [0..<m] (ez_z b)\<rparr>"
    if "i * k + m \<le> length (ez_iLPsiLX b)" for i m b
    using that by (induction m) (simp_all add: body_def Let_def)
  have outer: "ez_iLPsiL (run m) = ez_iLPsiL a \<and> ez_lapla (run m) = ez_lapla a
      \<and> ez_sum1 (run m) = ez_sum1 a \<and> ez_sum2 (run m) = ez_sum2 a
      \<and> length (ez_iLPsiLX (run m)) = length (ez_iLPsiLX a)
      \<and> length (ez_z (run m)) = length (ez_z a)
      \<and> (\<forall>j. j < k \<and> j < length (ez_z a) \<longrightarrow> ez_z (run m) ! j =
           foldl (\<lambda>s i. s + LPsi ! (i * k + j) * ez_iLPsiL a ! j * x ! i) (ez_z a ! j) [0..<m])"
    if "m * k \<le> length (ez_iLPsiLX a)" for m
    using that
  proof (induction m)
    case 0
    then show ?case by (simp add: run_def)
  next
    case (Suc m)
    from Suc.prems have mk: "m * k \<le> length (ez_iLPsiLX a)" by simp
    note IH = Suc.IH[OF mk]
    from Suc.prems IH have le: "m * k + k \<le> length (ez_iLPsiLX (run m))" by (simp add: add.commute)
    have step: "run (Suc m) = fold (body m) [0..<k] (run m)"
      by (simp add: run_def)
    show ?case
      unfolding step inner[OF le] using IH
      by (simp add: nth_fold_modify[where h = "\<lambda>j v. v + LPsi ! (m * k + j) * ez_iLPsiL a ! j * x ! m"])
  qed
  show "ez_iLPsiL (ez_mean n k x LPsi a) = ez_iLPsiL a"
    and "ez_lapla (ez_mean n k x LPsi a) = ez_lapla a"
    and "ez_sum1 (ez_mean n k x LPsi a) = ez_sum1 a"
    and "ez_sum2 (ez_mean n k x LPsi a) = ez_sum2 a"
    and "length (ez_iLPsiLX (ez_mean n k x LPsi a)) = length (ez_iLPsiLX a)"
    and "length (ez_z (ez_mean n k x LPsi a)) = length (ez_z a)"
    and "j < k \<Longrightarrow> j < length (ez_z a) \<Longrightarrow>
         ez_z (ez_mean n k x LPsi a) ! j =
           foldl (\<lambda>s i. s + LPsi ! (i * k + j) * ez_iLPsiL a ! j * x ! i) (ez_z a ! j) [0..<n]"
    using outer[OF len] unfolding mean by simp_all
qed


lemma ez_diag_props:
  fixes a :: "('a::{zero,one,plus,inverse}) ez"
  shows "ez_lapla (ez_diag env k LPsiL a) = ez_lapla a"
    and "ez_iLPsiLX (ez_diag env k LPsiL a) = ez_iLPsiLX a"
    and "ez_sum1 (ez_diag env k LPsiL a) = ez_sum1 a"
    and "ez_sum2 (ez_diag env k LPsiL a) = ez_sum2 a"
    and "length (ez_iLPsiL (ez_diag env k LPsiL a)) = length (ez_iLPsiL a)"
    and "length (ez_z (ez_diag env k LPsiL a)) = length (ez_z a)"
    and "i < k \<Longrightarrow> i < length (ez_iLPsiL a) \<Longrightarrow>
         ez_iLPsiL (ez_diag env k LPsiL a) ! i = 1 / (LPsiL ! i + ez_lapla a ! i + MACHINE_EPS env)"
    and "i < k \<Longrightarrow> i < length (ez_z a) \<Longrightarrow> ez_z (ez_diag env k LPsiL a) ! i = 0"
  by (simp_all add: ez_diag_closed nth_fold_set)

lemma ez_moments_closed:
  fixes a :: "('a::{plus,times,uminus,ord}) ez"
  assumes len: "k \<le> length (ez_iLPsiL a)"
  shows "ez_moments env k spz lap sum2 a =
    (fold (\<lambda>i sum2.
        (fold (\<lambda>j sum2. sum2[i * k + j := sum2 ! (i * k + j) + ez_z a ! i * ez_z a ! j]) [0..<k] sum2)
        [i * k + i :=
           fold (\<lambda>j sum2. sum2[i * k + j := sum2 ! (i * k + j) + ez_z a ! i * ez_z a ! j]) [0..<k] sum2
             ! (i * k + i) + ez_iLPsiL a ! i])
       [0..<k] sum2,
     a\<lparr>ez_iLPsiL := fold (\<lambda>i xs. xs[i := xs ! i + ez_z a ! i * ez_z a ! i]) [0..<k] (ez_iLPsiL a),
       ez_lapla := fold (\<lambda>i xs. xs[i :=
          (if pow env (MACHINE_EPS env + (ez_iLPsiL a ! i + ez_z a ! i * ez_z a ! i)) (- spz) < lap then lap
           else pow env (MACHINE_EPS env + (ez_iLPsiL a ! i + ez_z a ! i * ez_z a ! i)) (- spz))])
          [0..<k] (ez_lapla a)\<rparr>)"
proof -
  define body where "body = (\<lambda>i (sum2, a::'a ez).
       let sum2 = fold (\<lambda>j sum2. sum2[i * k + j := sum2 ! (i * k + j) + ez_z a ! i * ez_z a ! j])
                    [0..<k] sum2;
           sum2 = sum2[i * k + i := sum2 ! (i * k + i) + ez_iLPsiL a ! i];
           a = a\<lparr>ez_iLPsiL := (ez_iLPsiL a)[i := ez_iLPsiL a ! i + ez_z a ! i * ez_z a ! i]\<rparr>;
           s = pow env (MACHINE_EPS env + ez_iLPsiL a ! i) (- spz)
       in (sum2, a\<lparr>ez_lapla := (ez_lapla a)[i := (if s < lap then lap else s)]\<rparr>))"
  have mom: "ez_moments env k spz lap sum2 a = fold body [0..<k] (sum2, a)"
    unfolding ez_moments_def body_def ..
  have "fold body [0..<m] (sum2, a) =
    (fold (\<lambda>i sum2.
        (fold (\<lambda>j sum2. sum2[i * k + j := sum2 ! (i * k + j) + ez_z a ! i * ez_z a ! j]) [0..<k] sum2)
        [i * k + i :=
           fold (\<lambda>j sum2. sum2[i * k + j := sum2 ! (i * k + j) + ez_z a ! i * ez_z a ! j]) [0..<k] sum2
             ! (i * k + i) + ez_iLPsiL a ! i])
       [0..<m] sum2,
     a\<lparr>ez_iLPsiL := fold (\<lambda>i xs. xs[i := xs ! i + ez_z a ! i * ez_z a ! i]) [0..<m] (ez_iLPsiL a),
       ez_lapla := fold (\<lambda>i xs. xs[i :=
          (if pow env (MACHINE_EPS env + (ez_iLPsiL a ! i + ez_z a ! i * ez_z a ! i)) (- spz) < lap then lap
           else pow env (MACHINE_EPS env + (ez_iLPsiL a ! i + ez_z a ! i * ez_z a ! i)) (- spz))])
          [0..<m] (ez_lapla a)\<rparr>)"
    if "m \<le> k" for m
    using that
  proof (induction m)
    case 0
    then show ?case by simp
  next
    case (Suc m)
    from Suc.prems len have m: "m < length (ez_iLPsiL a)" by simp
    have keep: "fold (\<lambda>i xs. xs[i := xs ! i + ez_z a ! i * ez_z a ! i]) [0..<m] (ez_iLPsiL a) ! m
        = ez_iLPsiL a ! m"
      using nth_fold_modify[where h = "\<lambda>i v. v + ez_z a ! i * ez_z a ! i", OF m, of m] by simp
    from Suc show ?case
      using m by (simp add: body_def Let_def keep)
  qed
  from this[of k] show ?thesis unfolding mom by simp
qed


lemma fold1_nth:
  assumes inj: "\<And>a a'. a < n \<Longrightarrow> a' < n \<Longrightarrow> g a = g a' \<Longrightarrow> a = a'"
    and rng: "\<And>a. a < n \<Longrightarrow> g a < length xs"
    and c: "c \<le> n"
  shows "length (fold (\<lambda>a xs. xs[g a := h a (xs ! g a)]) [0..<c] xs) = length xs
    \<and> (\<forall>a<c. fold (\<lambda>a xs. xs[g a := h a (xs ! g a)]) [0..<c] xs ! g a = h a (xs ! g a))
    \<and> (\<forall>p. (\<forall>a<c. g a \<noteq> p) \<longrightarrow> fold (\<lambda>a xs. xs[g a := h a (xs ! g a)]) [0..<c] xs ! p = xs ! p)"
  using c
proof (induction c)
  case 0
  then show ?case by simp
next
  case (Suc c)
  let ?G = "fold (\<lambda>a xs. xs[g a := h a (xs ! g a)]) [0..<c] xs"
  from Suc have IH: "length ?G = length xs"
      "\<And>a. a < c \<Longrightarrow> ?G ! g a = h a (xs ! g a)"
      "\<And>p. (\<forall>a<c. g a \<noteq> p) \<Longrightarrow> ?G ! p = xs ! p"
    by simp_all
  from Suc.prems have cn: "c < n" by simp
  have "g a \<noteq> g c" if "a < c" for a
    using inj[of a c] that cn less_trans[OF that cn] by auto
  then have fresh: "\<forall>a<c. g a \<noteq> g c" by simp
  have gc: "?G ! g c = xs ! g c"
    using IH(3)[OF fresh] .
  have in_range: "g c < length ?G"
    using rng[OF cn] IH(1) by simp
  have step: "fold (\<lambda>a xs. xs[g a := h a (xs ! g a)]) [0..<Suc c] xs = ?G[g c := h c (xs ! g c)]"
    by (simp add: gc)
  show ?case
    unfolding step
  proof (intro conjI allI impI)
    show "length (?G[g c := h c (xs ! g c)]) = length xs" using IH(1) by simp
  next
    fix a assume "a < Suc c"
    then show "?G[g c := h c (xs ! g c)] ! g a = h a (xs ! g a)"
      using in_range IH(2)[of a] fresh by (cases "a = c") (auto simp: less_Suc_eq)
  next
    fix p assume "\<forall>a<Suc c. g a \<noteq> p"
    then show "?G[g c := h c (xs ! g c)] ! p = xs ! p"
      using IH(3)[of p] by auto
  qed
qed

lemma fold2_nth:
  assumes inj: "\<And>a b a' b'. a < n \<Longrightarrow> a' < n \<Longrightarrow> b < m \<Longrightarrow> b' < m \<Longrightarrow>
                  idx a b = idx a' b' \<Longrightarrow> a = a' \<and> b = b'"
    and rng: "\<And>a b. a < n \<Longrightarrow> b < m \<Longrightarrow> idx a b < length xs"
    and c: "c \<le> m"
  shows "length (fold (\<lambda>b xs. fold (\<lambda>a xs. xs[idx a b := h a b (xs ! idx a b)]) [0..<n] xs) [0..<c] xs)
           = length xs
    \<and> (\<forall>a<n. \<forall>b<c.
          fold (\<lambda>b xs. fold (\<lambda>a xs. xs[idx a b := h a b (xs ! idx a b)]) [0..<n] xs) [0..<c] xs
            ! idx a b = h a b (xs ! idx a b))
    \<and> (\<forall>p. (\<forall>a<n. \<forall>b<c. idx a b \<noteq> p) \<longrightarrow>
          fold (\<lambda>b xs. fold (\<lambda>a xs. xs[idx a b := h a b (xs ! idx a b)]) [0..<n] xs) [0..<c] xs
            ! p = xs ! p)"
  using c
proof (induction c)
  case 0
  then show ?case by simp
next
  case (Suc c)
  let ?F = "fold (\<lambda>b xs. fold (\<lambda>a xs. xs[idx a b := h a b (xs ! idx a b)]) [0..<n] xs) [0..<c] xs"
  from Suc have IH: "length ?F = length xs"
      "\<And>a b. a < n \<Longrightarrow> b < c \<Longrightarrow> ?F ! idx a b = h a b (xs ! idx a b)"
      "\<And>p. (\<forall>a<n. \<forall>b<c. idx a b \<noteq> p) \<Longrightarrow> ?F ! p = xs ! p"
    by simp_all
  from Suc.prems have cm: "c < m" by simp
  let ?I = "fold (\<lambda>a xs. xs[idx a c := h a c (xs ! idx a c)]) [0..<n] ?F"
  have inner: "length ?I = length ?F"
      "\<And>a. a < n \<Longrightarrow> ?I ! idx a c = h a c (?F ! idx a c)"
      "\<And>p. (\<forall>a<n. idx a c \<noteq> p) \<Longrightarrow> ?I ! p = ?F ! p"
    using fold1_nth[where g = "\<lambda>a. idx a c" and h = "\<lambda>a. h a c" and xs = ?F and n = n and c = n]
      inj[OF _ _ cm cm] rng[OF _ cm] IH(1) by auto
  have old: "?F ! idx a c = xs ! idx a c" if "a < n" for a
  proof (rule IH(3), intro allI impI)
    fix a' b assume "a' < n" "b < c"
    then show "idx a' b \<noteq> idx a c"
      using inj[of a' a b c] that cm by auto
  qed
  have step: "fold (\<lambda>b xs. fold (\<lambda>a xs. xs[idx a b := h a b (xs ! idx a b)]) [0..<n] xs) [0..<Suc c] xs = ?I"
    by simp
  show ?case
    unfolding step
  proof (intro conjI allI impI)
    show "length ?I = length xs" using inner(1) IH(1) by simp
  next
    fix a b assume ab: "a < n" "b < Suc c"
    show "?I ! idx a b = h a b (xs ! idx a b)"
    proof (cases "b = c")
      case True
      then show ?thesis using inner(2)[OF ab(1)] old[OF ab(1)] by simp
    next
      case False
      with ab have bc: "b < c" by simp
      have "\<forall>a'<n. idx a' c \<noteq> idx a b"
        using inj[of _ a c b] ab(1) cm bc by auto
      from inner(3)[OF this] IH(2)[OF ab(1) bc] show ?thesis by simp
    qed
  next
    fix p assume p: "\<forall>a<n. \<forall>b<Suc c. idx a b \<noteq> p"
    then have "\<forall>a<n. idx a c \<noteq> p" by simp
    from inner(3)[OF this] have "?I ! p = ?F ! p" .
    also have "?F ! p = xs ! p" using p by (intro IH(3)) simp
    finally show "?I ! p = xs ! p" .
  qed
qed

section \<open>The E-step kernel\<close>

lemma approx_estimateZ_z:
  fixes a :: "('a::{zero,one,plus,uminus,times,inverse,ord}) ez"
  assumes "length (ez_z a) = k" and "length (ez_iLPsiL a) = k"
    and "length (ez_iLPsiLX a) = n * k"
  shows "(\<forall>i<k. ez_iLPsiL (ez_mean n k x LPsi (ez_diag env k LPsiL a)) ! i =
                 1 / (LPsiL ! i + ez_lapla a ! i + MACHINE_EPS env))
       \<and> (\<forall>j<k. ez_z (approx_estimateZ env n k x LPsi LPsiL spz lap a) ! j =
                 foldl (\<lambda>s i. s + LPsi ! (i * k + j)
                                    * (1 / (LPsiL ! j + ez_lapla a ! j + MACHINE_EPS env)) * x ! i)
                   0 [0..<n])"
proof -
  let ?d = "ez_diag env k LPsiL a"
  let ?m = "ez_mean n k x LPsi ?d"
  have lenX: "n * k \<le> length (ez_iLPsiLX ?d)"
    using assms by (simp add: ez_diag_props)
  have iL: "ez_iLPsiL ?m ! i = 1 / (LPsiL ! i + ez_lapla a ! i + MACHINE_EPS env)" if "i < k" for i
    using that assms by (simp add: ez_mean_props(1)[OF lenX] ez_diag_props)
  have z: "ez_z ?m ! j = foldl (\<lambda>s i. s + LPsi ! (i * k + j)
                                    * (1 / (LPsiL ! j + ez_lapla a ! j + MACHINE_EPS env)) * x ! i)
                   0 [0..<n]" if "j < k" for j
    using that assms by (simp add: ez_mean_props(7)[OF lenX] ez_diag_props)
  have lenL: "k \<le> length (ez_iLPsiL ?m)"
    using assms by (simp add: ez_mean_props(1)[OF lenX] ez_diag_props)
  have "ez_z (approx_estimateZ env n k x LPsi LPsiL spz lap a) = ez_z ?m"
    by (simp add: approx_estimateZ_def Let_def ez_moments_closed[OF lenL]
             split: option.splits prod.splits)
  with iL z show ?thesis by simp
qed

text \<open>
  Claim C1. For one sample column \<open>x\<close>, with \<open>LPsi\<close>, \<open>LPsiL\<close> and the variational
  parameters \<open>lap_j\<close> of the call, the kernel computes
  \<open>iLPsiL[i] = 1 / (LPsiL[i] + lap_j[i] + MACHINE_EPS)\<close> for every factor \<open>i\<close> (the
  first conjunct is the state when line 78 is reached), and the \<open>z\<close> it returns,
  with or without accumulators, is
  \<open>z[j] = \<Sum>\<^sub>i LPsi[j,i] \<cdot> iLPsiL[j] \<cdot> x[i]\<close>, the sum taken over the features in
  the order of the loop, starting from \<open>0\<close>. The statement uses no law of
  arithmetic, so it holds of the sums and products as the machine rounds them.
\<close>

theorem approx_estimateZ_posterior_mean:
  fixes a :: "('a::{zero,one,plus,uminus,times,inverse,ord}) ez"
  assumes "length (ez_z a) = k" and "length (ez_iLPsiL a) = k"
    and "length (ez_iLPsiLX a) = n * k"
  shows "(\<forall>i<k. ez_iLPsiL (ez_mean n k x LPsi (ez_diag env k LPsiL a)) ! i =
                 1 / (LPsiL ! i + ez_lapla a ! i + MACHINE_EPS env))
       \<and> (\<forall>j<k. ez_z (approx_estimateZ env n k x LPsi LPsiL spz lap a) ! j =
                 foldl (\<lambda>s i. s + LPsi ! (i * k + j)
                                    * (1 / (LPsiL ! j + ez_lapla a ! j + MACHINE_EPS env)) * x ! i)
                   0 [0..<n])"
  using assms by (rule approx_estimateZ_z)

theorem approx_estimateZ_posterior_mean_witness:
  "ez_z (approx_estimateZ real_env 2 2 [3, 4] [1, 2, 3, 5] [1, 2] 1 1
           \<lparr>ez_z = [7, 7], ez_lapla = [1, 2], ez_iLPsiL = [0, 0], ez_iLPsiLX = [0, 0, 0, 0],
            ez_sum1 = None, ez_sum2 = None\<rparr>) ! 1
     = 0 + 2 * (1 / (2 + 2 + 1 / 10000000)) * 3 + 5 * (1 / (2 + 2 + 1 / 10000000)) * 4"
  using approx_estimateZ_posterior_mean[of
     "\<lparr>ez_z = [7, 7], ez_lapla = [1, 2], ez_iLPsiL = [0, 0], ez_iLPsiLX = [0, 0, 0, 0],
            ez_sum1 = None, ez_sum2 = None\<rparr>" 2 2 "[3, 4]" "[1, 2, 3, 5]" real_env "[1, 2]" 1 1]
  by (simp add: real_env_def eval_nat_numeral)

section \<open>The final pass and the run with no iteration\<close>

lemma splice_slice: "splice off (slice off len xs) xs = xs"
proof -
  have "take len (drop off xs) @ drop (off + length (take len (drop off xs))) xs = drop off xs"
    by (simp add: min_def add.commute drop_drop[symmetric] del: drop_drop)
       (metis append_take_drop_id drop_drop add.commute)
  then show ?thesis
    by (simp add: splice_def slice_def)
qed

lemma ez_mean_frame:
  fixes a :: "('a::{plus,times}) ez"
  shows "ez_iLPsiL (ez_mean n k x LPsi a) = ez_iLPsiL a"
    and "ez_lapla (ez_mean n k x LPsi a) = ez_lapla a"
    and "ez_sum1 (ez_mean n k x LPsi a) = ez_sum1 a"
    and "ez_sum2 (ez_mean n k x LPsi a) = ez_sum2 a"
    and "length (ez_iLPsiLX (ez_mean n k x LPsi a)) = length (ez_iLPsiLX a)"
    and "length (ez_z (ez_mean n k x LPsi a)) = length (ez_z a)"
proof -
  define body where "body = (\<lambda>i j (a::'a ez).
         let a1 = a\<lparr>ez_iLPsiLX := (ez_iLPsiLX a)[i * k + j := LPsi ! (i * k + j) * ez_iLPsiL a ! j]\<rparr>
         in a1\<lparr>ez_z := (ez_z a1)[j := ez_z a1 ! j + ez_iLPsiLX a1 ! (i * k + j) * x ! i]\<rparr>)"
  have mean: "ez_mean n k x LPsi a = fold (\<lambda>i a. fold (body i) [0..<k] a) [0..<n] a"
    unfolding ez_mean_def body_def ..
  have inner: "ez_iLPsiL (fold (body i) js b) = ez_iLPsiL b \<and> ez_lapla (fold (body i) js b) = ez_lapla b
      \<and> ez_sum1 (fold (body i) js b) = ez_sum1 b \<and> ez_sum2 (fold (body i) js b) = ez_sum2 b
      \<and> length (ez_iLPsiLX (fold (body i) js b)) = length (ez_iLPsiLX b)
      \<and> length (ez_z (fold (body i) js b)) = length (ez_z b)" for i js b
    by (induction js arbitrary: b) (simp_all add: body_def Let_def)
  have outer: "ez_iLPsiL (fold (\<lambda>i a. fold (body i) [0..<k] a) is b) = ez_iLPsiL b
      \<and> ez_lapla (fold (\<lambda>i a. fold (body i) [0..<k] a) is b) = ez_lapla b
      \<and> ez_sum1 (fold (\<lambda>i a. fold (body i) [0..<k] a) is b) = ez_sum1 b
      \<and> ez_sum2 (fold (\<lambda>i a. fold (body i) [0..<k] a) is b) = ez_sum2 b
      \<and> length (ez_iLPsiLX (fold (\<lambda>i a. fold (body i) [0..<k] a) is b)) = length (ez_iLPsiLX b)
      \<and> length (ez_z (fold (\<lambda>i a. fold (body i) [0..<k] a) is b)) = length (ez_z b)" for "is" b
    by (induction "is" arbitrary: b) (simp_all add: inner)
  show "ez_iLPsiL (ez_mean n k x LPsi a) = ez_iLPsiL a"
    and "ez_lapla (ez_mean n k x LPsi a) = ez_lapla a"
    and "ez_sum1 (ez_mean n k x LPsi a) = ez_sum1 a"
    and "ez_sum2 (ez_mean n k x LPsi a) = ez_sum2 a"
    and "length (ez_iLPsiLX (ez_mean n k x LPsi a)) = length (ez_iLPsiLX a)"
    and "length (ez_z (ez_mean n k x LPsi a)) = length (ez_z a)"
    unfolding mean using outer by simp_all
qed

lemma approx_estimateZ_null:
  fixes a :: "('a::{zero,one,plus,uminus,times,inverse,ord}) ez"
  assumes "ez_sum1 a = None \<or> ez_sum2 a = None"
  shows "approx_estimateZ env n k x LPsi LPsiL spz lap a = ez_mean n k x LPsi (ez_diag env k LPsiL a)"
  using assms
  by (auto simp: approx_estimateZ_def Let_def ez_mean_frame ez_diag_props split: option.splits)

lemma estep_body_final_frame:
  "st_lapla (estep_body env P False iter j st) = st_lapla st"
  "st_L (estep_body env P False iter j st) = st_L st"
  "st_Psi (estep_body env P False iter j st) = st_Psi st"
  "st_out (estep_body env P False iter j st) = st_out st"
  "st_rand (estep_body env P False iter j st) = st_rand st"
  by (simp_all add: estep_body_def Let_def approx_estimateZ_null ez_mean_frame ez_diag_props splice_slice)

lemma final_pass_frame:
  "st_lapla (fold (estep_body env P False iter) js st) = st_lapla st
   \<and> st_L (fold (estep_body env P False iter) js st) = st_L st
   \<and> st_Psi (fold (estep_body env P False iter) js st) = st_Psi st
   \<and> st_rand (fold (estep_body env P False iter) js st) = st_rand st
   \<and> st_out (fold (estep_body env P False iter) js st) = st_out st"
  by (induction js arbitrary: st) (simp_all add: estep_body_final_frame)


lemma last_update_frame:
  "last_update env P t st = Inr st' \<Longrightarrow>
     st_lapla st' = st_lapla st \<and> st_L st' = st_L st \<and> st_Psi st' = st_Psi st"
  by (auto simp: last_update_def Let_def final_pass_frame split: if_splits prod.splits)

text \<open>
  Claim C10. The final E-only pass never modifies \<open>lapla\<close>: a call of the kernel
  with a null accumulator returns its \<open>lapla\<close> column as it got it, the step after
  the loop (\<open>last_update\<close>, on either path) leaves \<open>lapla\<close> as it is, and so the
  \<open>lapla\<close> that a run of the engine returns is the \<open>lapla\<close> of the state in which
  the EM loop ended, that is, after the last M-step with its rescaling and reset.
\<close>

theorem final_pass_keeps_lapla:
  fixes a :: "('a::{zero,one,plus,minus,uminus,times,inverse,abs,ord}) ez"
  shows "((ez_sum1 a = None \<or> ez_sum2 a = None) \<longrightarrow>
            ez_lapla (approx_estimateZ env n k x LPsi LPsiL spz lap a) = ez_lapla a)
       \<and> (\<forall>st'. last_update env P t st = Inr st' \<longrightarrow> st_lapla st' = st_lapla st)
       \<and> (\<forall>st'. malloc_ok env 6 \<and>
              approx_fabia_cm_f env k n l X Psi L Z lapla cyc alpha eps spl spz scale lap verbose nthreads
                = Inr st' \<longrightarrow>
            (\<exists>t st.
               em_loop env (run_params k n l X cyc alpha eps spl spz scale lap verbose nthreads)
                 (compute_XX env n l X (replicate n 0)) 1 0
                 (entry_state k n nthreads Psi L Z lapla)
                 = Inr (t, st)
               \<and> st_lapla st' = st_lapla st))"
proof (intro conjI allI impI)
  assume "ez_sum1 a = None \<or> ez_sum2 a = None"
  then show "ez_lapla (approx_estimateZ env n k x LPsi LPsiL spz lap a) = ez_lapla a"
    by (simp add: approx_estimateZ_null ez_mean_frame ez_diag_props)
next
  fix st' assume "last_update env P t st = Inr st'"
  then show "st_lapla st' = st_lapla st" by (simp add: last_update_frame)
next
  fix st'
  assume "malloc_ok env 6 \<and>
     approx_fabia_cm_f env k n l X Psi L Z lapla cyc alpha eps spl spz scale lap verbose nthreads = Inr st'"
  then show "\<exists>t st.
               em_loop env (run_params k n l X cyc alpha eps spl spz scale lap verbose nthreads)
                 (compute_XX env n l X (replicate n 0)) 1 0
                 (entry_state k n nthreads Psi L Z lapla)
                 = Inr (t, st)
               \<and> st_lapla st' = st_lapla st"
    by (auto simp: approx_fabia_cm_f_def Let_def entry_state_def last_update_frame
          split: if_splits sum.splits)
qed

lemma em_loop_done: "\<not> iter \<le> p_cyc P \<Longrightarrow> em_loop env P XX iter t st = Inr (t, st)"
  by (simp add: em_loop.simps)

text \<open>
  Claim C6, as amended. With \<open>cyc = 0\<close> and every allocation granted, the engine
  returns, and it returns \<open>L\<close>, \<open>Psi\<close> and \<open>lapla\<close> exactly as the caller supplied
  them. (\<open>Z\<close> is not kept: the step after the loop always writes it.)
\<close>

theorem cyc_zero_keeps_L_Psi_lapla:
  fixes Psi :: "('a::{zero,one,plus,minus,uminus,times,inverse,abs,ord}) list"
  assumes "\<forall>b<7. malloc_ok env b"
  shows "\<exists>st'. approx_fabia_cm_f env k n l X Psi L Z lapla 0 alpha eps spl spz scale lap verbose nthreads
               = Inr st'
             \<and> st_L st' = L \<and> st_Psi st' = Psi \<and> st_lapla st' = lapla"
proof -
  let ?P = "run_params k n l X 0 alpha eps spl spz scale lap verbose nthreads"
  let ?st = "entry_state k n nthreads Psi L Z lapla"
  have ok: "malloc_ok env 6" "malloc_ok env 5" "malloc_ok env 4" "malloc_ok env 3"
      "malloc_ok env 2"
    using assms by simp_all
  have loop: "em_loop env ?P (compute_XX env n l X (replicate n 0)) 1 0 ?st = Inr (0, ?st)"
    by (rule em_loop_done) (simp add: run_params_def)
  obtain st' where st': "last_update env ?P 0 ?st = Inr st'"
    by (cases "last_update env ?P 0 ?st")
       (auto simp: last_update_def Let_def ok null_store_def split: if_splits prod.splits)
  from last_update_frame[OF st']
  have "st_L st' = L \<and> st_Psi st' = Psi \<and> st_lapla st' = lapla"
    by (simp add: entry_state_def)
  moreover have "approx_fabia_cm_f env k n l X Psi L Z lapla 0 alpha eps spl spz scale lap verbose nthreads
               = Inr st'"
    using ok loop st'
    by (simp add: approx_fabia_cm_f_def Let_def entry_state_def null_store_def)
  ultimately show ?thesis by blast
qed

section \<open>The shrinkage of \<open>L\<close>\<close>

lemma colmajor_inj:
  fixes a :: nat
  assumes "a < n" "a' < n" "a + n * b = a' + n * b'"
  shows "a = a' \<and> b = b'"
proof -
  from assms(3) have "(a + n * b) mod n = (a' + n * b') mod n" by simp
  then have aa: "a = a'" using assms(1,2) by simp
  from assms(3) have "(a + n * b) div n = (a' + n * b') div n" by simp
  then have "b = b'" using assms(1,2) by simp
  with aa show ?thesis by simp
qed

lemma colmajor_less:
  fixes a :: nat
  assumes "a < n" "b < m"
  shows "a + n * b < n * m"
proof -
  have "a + n * b < n + n * b" using assms by simp
  also have "\<dots> = n * Suc b" by simp
  also have "\<dots> \<le> n * m" using assms by (intro mult_le_mono2) simp
  finally show ?thesis .
qed




section \<open>The noise variances\<close>

lemma fold_pair_split:
  "fold (\<lambda>i (xs, t). (F i xs, G i t)) js (xs, t) = (fold F js xs, fold G js t)"
  by (induction js arbitrary: xs t) simp_all

lemma update_Psi_closed:
  fixes Psi0 :: "('a::{zero,plus,minus,times,inverse,abs,ord}) list"
  assumes len: "n \<le> length Psi0"
  shows "update_Psi env n k l XX eps L0 sum1 Psi0 =
     (fold (\<lambda>i1 Psi. Psi[i1 :=
          (let s = fold (\<lambda>i2 s. s + L0 ! (i1 + i2 * n) * sum1 ! (i1 + i2 * n)) [0..<k] 0;
               p = XX ! i1 - s / of_int_f env (int l)
           in if p < eps then eps else p)]) [0..<n] Psi0,
      fold (\<lambda>i1 t.
          (let s = fold (\<lambda>i2 s. s + L0 ! (i1 + i2 * n) * sum1 ! (i1 + i2 * n)) [0..<k] 0
           in if \<bar>s\<bar> > t then \<bar>s\<bar> else t)) [0..<n] 0)"
proof -
  define body where "body = (\<lambda>i1 (Psi, t::'a).
       let s = fold (\<lambda>i2 s. s + L0 ! (i1 + i2 * n) * sum1 ! (i1 + i2 * n)) [0..<k] 0;
           t = (if \<bar>s\<bar> > t then \<bar>s\<bar> else t);
           Psi = Psi[i1 := XX ! i1 - s / of_int_f env (int l)];
           Psi = (if Psi ! i1 < eps then Psi[i1 := eps] else Psi)
       in (Psi, t))"
  have up: "update_Psi env n k l XX eps L0 sum1 Psi0 = fold body [0..<n] (Psi0, 0)"
    unfolding update_Psi_def body_def ..
  have "fold body [0..<m] (Psi0, 0) =
     (fold (\<lambda>i1 Psi. Psi[i1 :=
          (let s = fold (\<lambda>i2 s. s + L0 ! (i1 + i2 * n) * sum1 ! (i1 + i2 * n)) [0..<k] 0;
               p = XX ! i1 - s / of_int_f env (int l)
           in if p < eps then eps else p)]) [0..<m] Psi0,
      fold (\<lambda>i1 t.
          (let s = fold (\<lambda>i2 s. s + L0 ! (i1 + i2 * n) * sum1 ! (i1 + i2 * n)) [0..<k] 0
           in if \<bar>s\<bar> > t then \<bar>s\<bar> else t)) [0..<m] 0)" if "m \<le> n" for m
    using that
  proof (induction m)
    case 0
    then show ?case by simp
  next
    case (Suc m)
    with len have "m < length Psi0" by simp
    with Suc show ?case by (simp add: body_def Let_def)
  qed
  from this[of n] show ?thesis unfolding up by simp
qed

lemma update_Psi_props:
  fixes Psi0 :: "('a::{zero,plus,minus,times,inverse,abs,ord}) list"
  assumes len: "length Psi0 = n"
  shows "length (fst (update_Psi env n k l XX eps L0 sum1 Psi0)) = n"
    and "i < n \<Longrightarrow> fst (update_Psi env n k l XX eps L0 sum1 Psi0) ! i =
          (let s = fold (\<lambda>i2 s. s + L0 ! (i + i2 * n) * sum1 ! (i + i2 * n)) [0..<k] 0;
               p = XX ! i - s / of_int_f env (int l)
           in if p < eps then eps else p)"
    and "snd (update_Psi env n k l XX eps L0 sum1 Psi0) =
          fold (\<lambda>i1 t.
          (let s = fold (\<lambda>i2 s. s + L0 ! (i1 + i2 * n) * sum1 ! (i1 + i2 * n)) [0..<k] 0
           in if \<bar>s\<bar> > t then \<bar>s\<bar> else t)) [0..<n] 0"
  using len by (simp_all add: update_Psi_closed nth_fold_set)

lemma flatten_Psi_props:
  "length (flatten_Psi n eps Psi0) = length Psi0"
  "i < n \<Longrightarrow> i < length Psi0 \<Longrightarrow> flatten_Psi n eps Psi0 ! i = eps"
  by (simp_all add: flatten_Psi_def nth_fold_set)

lemma estep_body_frame:
  "st_Psi (estep_body env P acc iter j st) = st_Psi st"
  "st_L (estep_body env P acc iter j st) = st_L st"
  "st_rand (estep_body env P acc iter j st) = st_rand st"
  "st_out (estep_body env P acc iter j st) = st_out st"
  "st_LPsi (estep_body env P acc iter j st) = st_LPsi st"
  "st_LPsiL (estep_body env P acc iter j st) = st_LPsiL st"
  by (simp_all add: estep_body_def Let_def)

lemma estep_loop_frame:
  "st_Psi (fold (estep_body env P acc iter) js st) = st_Psi st
   \<and> st_L (fold (estep_body env P acc iter) js st) = st_L st
   \<and> st_rand (fold (estep_body env P acc iter) js st) = st_rand st
   \<and> st_out (fold (estep_body env P acc iter) js st) = st_out st
   \<and> st_LPsi (fold (estep_body env P acc iter) js st) = st_LPsi st
   \<and> st_LPsiL (fold (estep_body env P acc iter) js st) = st_LPsiL st"
  by (induction js arbitrary: st) (simp_all add: estep_body_frame)

lemma e_step_frame:
  "st_Psi (e_step env P iter st) = st_Psi st"
  "st_L (e_step env P iter st) = st_L st"
  "st_rand (e_step env P iter st) = st_rand st"
  "st_out (e_step env P iter st) = st_out st"
  by (simp_all add: e_step_def Let_def split_def estep_loop_frame)


lemma m_update_frame:
  assumes "m_update env P XX st = Inr (t, st')"
  shows "st_lapla st' = st_lapla st" and "st_Z st' = st_Z st" and "st_rand st' = st_rand st"
    and "st_out st' = st_out st" and "st_sum1 st' = st_sum1 st"
  using assms by (auto simp: m_update_def Let_def split: sum.splits prod.splits)





lemma em_loop_unfold:
  "iter \<le> p_cyc P \<Longrightarrow>
   em_loop env P XX iter t st =
     (case em_iteration env P XX iter st of
        Inl e \<Rightarrow> Inl e
      | Inr (Break, t, st) \<Rightarrow> Inr (t, st)
      | Inr (Next, t, st) \<Rightarrow> em_loop env P XX (iter + 1) t st)"
  by (subst em_loop.simps) simp






section \<open>The sizes of the arrays\<close>

lemma length_slice: "length (slice off len xs) = min len (length xs - off)"
  by (simp add: slice_def)

lemma length_splice_slice:
  "length ys = length (slice off len xs) \<Longrightarrow> length (splice off ys xs) = length xs"
  by (auto simp: splice_def slice_def min_def)

lemma ez_moments_frame:
  fixes a :: "('a::{plus,times,uminus,ord}) ez"
  shows "ez_z (snd (ez_moments env k spz lap sum2 a)) = ez_z a"
    and "ez_iLPsiLX (snd (ez_moments env k spz lap sum2 a)) = ez_iLPsiLX a"
    and "ez_sum1 (snd (ez_moments env k spz lap sum2 a)) = ez_sum1 a"
    and "ez_sum2 (snd (ez_moments env k spz lap sum2 a)) = ez_sum2 a"
    and "length (ez_lapla (snd (ez_moments env k spz lap sum2 a))) = length (ez_lapla a)"
    and "length (ez_iLPsiL (snd (ez_moments env k spz lap sum2 a))) = length (ez_iLPsiL a)"
    and "length (fst (ez_moments env k spz lap sum2 a)) = length sum2"
proof -
  define body where "body = (\<lambda>i (sum2, a::'a ez).
       let sum2 = fold (\<lambda>j sum2. sum2[i * k + j := sum2 ! (i * k + j) + ez_z a ! i * ez_z a ! j])
                    [0..<k] sum2;
           sum2 = sum2[i * k + i := sum2 ! (i * k + i) + ez_iLPsiL a ! i];
           a = a\<lparr>ez_iLPsiL := (ez_iLPsiL a)[i := ez_iLPsiL a ! i + ez_z a ! i * ez_z a ! i]\<rparr>;
           s = pow env (MACHINE_EPS env + ez_iLPsiL a ! i) (- spz)
       in (sum2, a\<lparr>ez_lapla := (ez_lapla a)[i := (if s < lap then lap else s)]\<rparr>))"
  have mom: "ez_moments env k spz lap sum2 a = fold body [0..<k] (sum2, a)"
    unfolding ez_moments_def body_def ..
  have "ez_z (snd (fold body js (s2, b))) = ez_z b
      \<and> ez_iLPsiLX (snd (fold body js (s2, b))) = ez_iLPsiLX b
      \<and> ez_sum1 (snd (fold body js (s2, b))) = ez_sum1 b
      \<and> ez_sum2 (snd (fold body js (s2, b))) = ez_sum2 b
      \<and> length (ez_lapla (snd (fold body js (s2, b)))) = length (ez_lapla b)
      \<and> length (ez_iLPsiL (snd (fold body js (s2, b)))) = length (ez_iLPsiL b)
      \<and> length (fst (fold body js (s2, b))) = length s2" for js s2 b
    by (induction js arbitrary: s2 b) (simp_all add: body_def Let_def)
  from this[of "[0..<k]" sum2 a]
  show "ez_z (snd (ez_moments env k spz lap sum2 a)) = ez_z a"
    and "ez_iLPsiLX (snd (ez_moments env k spz lap sum2 a)) = ez_iLPsiLX a"
    and "ez_sum1 (snd (ez_moments env k spz lap sum2 a)) = ez_sum1 a"
    and "ez_sum2 (snd (ez_moments env k spz lap sum2 a)) = ez_sum2 a"
    and "length (ez_lapla (snd (ez_moments env k spz lap sum2 a))) = length (ez_lapla a)"
    and "length (ez_iLPsiL (snd (ez_moments env k spz lap sum2 a))) = length (ez_iLPsiL a)"
    and "length (fst (ez_moments env k spz lap sum2 a)) = length sum2"
    unfolding mom by simp_all
qed

lemma length_ger [simp]: "length (ger n k x z A) = length A"
proof -
  have inner: "length (fold (\<lambda>i A. A[i + j * n := A ! (i + j * n) + x ! i * z ! j]) is B) = length B"
    for j "is" B
    by (induction "is" arbitrary: B) simp_all
  have "length (fold (\<lambda>j A. fold (\<lambda>i A. A[i + j * n := A ! (i + j * n) + x ! i * z ! j]) [0..<n] A) js B)
      = length B" for js B
    by (induction js arbitrary: B) (simp_all add: inner)
  then show ?thesis by (simp add: ger_def)
qed

lemma approx_estimateZ_lengths:
  fixes a :: "('a::{zero,one,plus,uminus,times,inverse,ord}) ez"
  shows "length (ez_z (approx_estimateZ env n k x LPsi LPsiL spz lap a)) = length (ez_z a)"
    and "length (ez_lapla (approx_estimateZ env n k x LPsi LPsiL spz lap a)) = length (ez_lapla a)"
    and "length (ez_iLPsiL (approx_estimateZ env n k x LPsi LPsiL spz lap a)) = length (ez_iLPsiL a)"
    and "length (ez_iLPsiLX (approx_estimateZ env n k x LPsi LPsiL spz lap a)) = length (ez_iLPsiLX a)"
  by (simp_all add: approx_estimateZ_def Let_def split_def ez_moments_frame ez_mean_frame ez_diag_props
        split: option.splits)

lemma approx_estimateZ_sums:
  fixes a :: "('a::{zero,one,plus,uminus,times,inverse,ord}) ez"
  shows "(ez_sum1 a = None \<longrightarrow> ez_sum1 (approx_estimateZ env n k x LPsi LPsiL spz lap a) = None)
       \<and> (\<forall>s. ez_sum1 a = Some s \<longrightarrow>
            (\<exists>s'. ez_sum1 (approx_estimateZ env n k x LPsi LPsiL spz lap a) = Some s' \<and> length s' = length s))
       \<and> (ez_sum2 a = None \<longrightarrow> ez_sum2 (approx_estimateZ env n k x LPsi LPsiL spz lap a) = None)
       \<and> (\<forall>s. ez_sum2 a = Some s \<longrightarrow>
            (\<exists>s'. ez_sum2 (approx_estimateZ env n k x LPsi LPsiL spz lap a) = Some s' \<and> length s' = length s))"
  by (auto simp: approx_estimateZ_def Let_def split_def ez_moments_frame ez_mean_frame ez_diag_props
        split: option.splits)

lemma estep_body_lengths:
  "length (st_Z (estep_body env P acc iter j st)) = length (st_Z st)"
  "length (st_lapla (estep_body env P acc iter j st)) = length (st_lapla st)"
  "length (st_iLPsiL (estep_body env P acc iter j st)) = length (st_iLPsiL st)"
  "length (st_iLPsiLX (estep_body env P acc iter j st)) = length (st_iLPsiLX st)"
  by (simp_all add: estep_body_def Let_def length_splice_slice approx_estimateZ_lengths)

lemma estep_loop_lengths:
  "length (st_Z (fold (estep_body env P acc iter) js st)) = length (st_Z st)
   \<and> length (st_lapla (fold (estep_body env P acc iter) js st)) = length (st_lapla st)
   \<and> length (st_iLPsiL (fold (estep_body env P acc iter) js st)) = length (st_iLPsiL st)
   \<and> length (st_iLPsiLX (fold (estep_body env P acc iter) js st)) = length (st_iLPsiLX st)"
  by (induction js arbitrary: st) (simp_all add: estep_body_lengths)

lemma e_step_lengths:
  "length (st_Z (e_step env P iter st)) = length (st_Z st)"
  "length (st_lapla (e_step env P iter st)) = length (st_lapla st)"
  "length (st_iLPsiL (e_step env P iter st)) = length (st_iLPsiL st)"
  "length (st_iLPsiLX (e_step env P iter st)) = length (st_iLPsiLX st)"
  by (simp_all add: e_step_def Let_def split_def estep_loop_lengths)


section \<open>The collapse exit\<close>

lemma memset0_replicate: "length xs = m \<Longrightarrow> memset0 m xs = replicate m 0"
  by (rule nth_equalityI) (simp_all add: memset0_def nth_fold_set)

lemma flatten_Psi_replicate: "length Psi0 = n \<Longrightarrow> flatten_Psi n eps Psi0 = replicate n eps"
  by (rule nth_equalityI) (simp_all add: flatten_Psi_props)

lemma rowmajor_inj:
  fixes a :: nat
  assumes "a < k" "a' < k" "b * k + a = b' * k + a'"
  shows "a = a' \<and> b = b'"
  using colmajor_inj[of a k a' b b'] assms by (simp add: add.commute mult.commute)

lemma rowmajor_less:
  fixes a :: nat
  assumes "a < k" "b < m"
  shows "b * k + a < k * m"
  using colmajor_less[OF assms] by (simp add: add.commute mult.commute)

lemma flatten_lapla_replicate:
  assumes len: "length lapla0 = k * l"
  shows "flatten_lapla k l eps lapla0 = replicate (k * l) eps"
proof (rule nth_equalityI)
  note f2 = fold2_nth[where idx = "\<lambda>a b. b * k + a" and h = "\<lambda>a b v. eps" and xs = lapla0
      and n = k and m = l and c = l, OF rowmajor_inj, simplified len, OF _ _ _ rowmajor_less]
  have f2': "length (flatten_lapla k l eps lapla0) = k * l"
    "\<And>a b. a < k \<Longrightarrow> b < l \<Longrightarrow> flatten_lapla k l eps lapla0 ! (b * k + a) = eps"
    using f2 by (simp_all add: flatten_lapla_def)
  show "length (flatten_lapla k l eps lapla0) = length (replicate (k * l) eps)"
    using f2'(1) by simp
  fix p assume "p < length (flatten_lapla k l eps lapla0)"
  then have p: "p < k * l" using f2'(1) by simp
  then have k: "0 < k" by (cases k) simp_all
  have "p mod k < k" using k by simp
  moreover have "p div k < l" using p by (simp add: less_mult_imp_div_less mult.commute)
  ultimately have "flatten_lapla k l eps lapla0 ! (p div k * k + p mod k) = eps"
    by (rule f2'(2))
  then show "flatten_lapla k l eps lapla0 ! p = replicate (k * l) eps ! p"
    using p by simp
qed

lemma fold_max_less:
  fixes eps :: "'a::ord"
  assumes "t0 < eps" and "\<forall>i<n. g i < eps"
  shows "fold (\<lambda>i t. if g i > t then g i else t) [0..<n] t0 < eps"
  using assms(2) by (induction n) (simp_all add: assms(1))

lemma fold_max_ge:
  fixes t0 :: "'a::linorder"
  shows "t0 \<le> fold (\<lambda>i t. if g i > t then g i else t) [0..<n] t0
       \<and> (\<forall>i<n. g i \<le> fold (\<lambda>i t. if g i > t then g i else t) [0..<n] t0)"
proof (induction n)
  case 0
  then show ?case by simp
next
  case (Suc n)
  then show ?case by (auto simp: less_Suc_eq not_less intro: order_trans less_imp_le)
qed

lemma m_update_result:
  assumes "m_update env P XX st = Inr (t, st')"
  shows "(st_Psi st', t) = update_Psi env (p_n P) (p_k P) (p_l P) XX (p_eps P) (st_L st')
            (st_sum1 st') (st_Psi st)"
  using assms
  by (auto simp: m_update_def Let_def split: sum.splits prod.splits)

text \<open>
  Claim C3. Suppose an iteration reaches the noise-variance update (the inverse
  and the new \<open>L\<close> were computed: \<open>m_update\<close> returns \<open>t1\<close> and the state \<open>st1\<close>), and
  every \<open>\<bar>d[i]\<bar>\<close>, \<open>d\<close> the diagonal of \<open>L \<cdot> sum1\<^sup>T\<close> for the \<open>L\<close> and \<open>sum1\<close> of that
  state, is below \<open>eps\<close>. Then \<open>t1 < eps\<close>; the iteration ends by \<^verbatim>\<open>break\<close> in the
  state \<open>st1\<close> with \<open>Psi[i] = eps\<close> for every \<open>i\<close>, \<open>lapla[i,j] = eps\<close> for every \<open>i\<close>
  and \<open>j\<close> and the diagnostic printed, \<open>L\<close> and the random generator being as the
  update left them (no rescaling, no reset); the EM loop ends there; and the
  step after the loop clears \<open>Z\<close> and runs no final pass. The numbers are those of
  a linearly ordered field.
\<close>

theorem collapse_exit_taken:
  fixes st :: "('a::linordered_field) state"
  assumes lens: "length (st_Psi st) = p_n P" "length (st_lapla st) = p_k P * p_l P"
      "length (st_Z st) = p_k P * p_l P"
    and alloc: "\<forall>b<7. malloc_ok env b"
    and iter: "iter \<le> p_cyc P"
    and mu: "m_update env P XX (e_step env P iter st) = Inr (t1, st1)"
    and n: "0 < p_n P"
    and small: "\<forall>i<p_n P.
        \<bar>fold (\<lambda>i2 s. s + st_L st1 ! (i + i2 * p_n P) * st_sum1 st1 ! (i + i2 * p_n P)) [0..<p_k P] 0\<bar>
          < p_eps P"
  shows "let st' = st1\<lparr>st_Psi := replicate (p_n P) (p_eps P),
                        st_lapla := replicate (p_k P * p_l P) (p_eps P),
                        st_out := st_out st @ [BailingOut t1 (p_eps P)]\<rparr>
         in t1 < p_eps P
          \<and> em_iteration env P XX iter st = Inr (Break, t1, st')
          \<and> em_loop env P XX iter t st = Inr (t1, st')
          \<and> last_update env P t1 st' =
              Inr (st'\<lparr>st_Z := replicate (p_k P * p_l P) 0, st_out := st_out st' @ [TimingSummary]\<rparr>)"
proof -
  let ?e = "e_step env P iter st"
  define st' where "st' = st1\<lparr>st_Psi := replicate (p_n P) (p_eps P),
                        st_lapla := replicate (p_k P * p_l P) (p_eps P),
                        st_out := st_out st @ [BailingOut t1 (p_eps P)]\<rparr>"
  have lenP: "length (st_Psi ?e) = p_n P" using lens by (simp add: e_step_frame)
  from m_update_result[OF mu]
  have P1: "st_Psi st1 = fst (update_Psi env (p_n P) (p_k P) (p_l P) XX (p_eps P) (st_L st1)
            (st_sum1 st1) (st_Psi ?e))"
    and t1: "t1 = snd (update_Psi env (p_n P) (p_k P) (p_l P) XX (p_eps P) (st_L st1)
            (st_sum1 st1) (st_Psi ?e))"
    by (metis fst_conv, metis snd_conv)
  have "0 \<le> \<bar>fold (\<lambda>i2 s. s + st_L st1 ! (0 + i2 * p_n P) * st_sum1 st1 ! (0 + i2 * p_n P)) [0..<p_k P] 0\<bar>"
    by simp
  also have "\<dots> < p_eps P" using small n by blast
  finally have eps: "0 < p_eps P" .
  have less: "t1 < p_eps P"
    unfolding t1 update_Psi_props(3)[OF lenP] Let_def
    by (rule fold_max_less[OF eps]) (use small in simp)
  have len1: "length (st_Psi st1) = p_n P"
    unfolding P1 by (rule update_Psi_props(1)[OF lenP])
  have lap1: "length (st_lapla st1) = p_k P * p_l P"
    using lens by (simp add: m_update_frame[OF mu] e_step_lengths)
  have Z1: "length (st_Z st1) = p_k P * p_l P"
    using lens by (simp add: m_update_frame[OF mu] e_step_lengths)
  have out1: "st_out st1 = st_out st"
    by (simp add: m_update_frame[OF mu] e_step_frame)
  have ce: "collapse_exit P t1 st1 = st'"
    by (simp add: collapse_exit_def st'_def flatten_Psi_replicate[OF len1]
          flatten_lapla_replicate[OF lap1] out1)
  have ok: "\<not> null_store env b m" if "b < 7" for b m
    using alloc that by (simp add: null_store_def)
  have it: "em_iteration env P XX iter st = Inr (Break, t1, st')"
    using mu less ce by (simp add: em_iteration_def m_step_def Let_def ok)
  have loop: "em_loop env P XX iter t st = Inr (t1, st')"
    using it by (simp add: em_loop_unfold[OF iter])
  have "\<not> p_eps P \<le> t1" using less by simp
  then have last: "last_update env P t1 st' =
              Inr (st'\<lparr>st_Z := replicate (p_k P * p_l P) 0, st_out := st_out st' @ [TimingSummary]\<rparr>)"
    using Z1 by (simp add: last_update_def Let_def st'_def memset0_replicate)
  from less it loop last show ?thesis
    unfolding st'_def Let_def by simp
qed


section \<open>The floor of the variational parameters\<close>















section \<open>Linearity of the posterior mean\<close>





section \<open>The second moments \\<open>sum2\\<close>\<close>








lemma slice_len:
  assumes "off + len \<le> length xs"
  shows "length (slice off len xs) = len"
  using assms by (simp add: length_slice)







lemma length_reduce [simp]: "length (reduce m N buf) = length buf"
proof -
  have "length (fold (\<lambda>i buf. fold (\<lambda>tid buf. buf[i := buf ! i + buf ! (i + tid * m)]) [1..<N] buf)
       is buf) = length buf" for "is"
    by (induction "is" arbitrary: buf) simp_all
  then show ?thesis by (simp add: reduce_def)
qed




section \<open>The matrix given to the Cholesky inverse\<close>




section \<open>The state from one iteration to the next\<close>












lemma iteration_start_em_loop:
  assumes "iteration_start env P XX st m = Some s"
  shows "\<exists>t'. em_loop env P XX 1 t st = em_loop env P XX (Suc m) t' s"
  using assms
proof (induction m arbitrary: s)
  case 0
  then show ?case by auto
next
  case (Suc m)
  from Suc.prems obtain s0 t1 where s0: "iteration_start env P XX st m = Some s0"
    and le: "Suc m \<le> p_cyc P"
    and it: "em_iteration env P XX (Suc m) s0 = Inr (Next, t1, s)"
    by (auto split: option.splits if_splits sum.splits prod.splits flow.splits)
  from Suc.IH[OF s0] obtain t' where "em_loop env P XX 1 t st = em_loop env P XX (Suc m) t' s0"
    by blast
  also have "\<dots> = em_loop env P XX (Suc m + 1) t1 s"
    by (simp add: em_loop_unfold[OF le] it)
  finally show ?case by auto
qed




section \<open>The example runs evaluated\<close>

lemmas model_defs = approx_fabia_cm_f_def entry_state_def run_params_def real_env_def
  null_store_def compute_XX_def memset0_def em_iteration_def e_step_def m_step_def
  m_update_def collapse_exit_def rescale_and_reset_def
  compute_LPsi_def estep_body_def approx_estimateZ_def ez_diag_def ez_mean_def ger_def
  ez_moments_def reduce_def invertCholesky_def potrf_1_def potri_1_def gemm_def shrink_def
  non_negative_def update_Psi_def flatten_Psi_def flatten_lapla_def rescale_def
  reset_columns_def isZero_def last_update_def slice_def splice_def em_loop.simps

lemmas example_defs = example_params_def example_XX_def example_entry_def

lemma example_iteration:
  "em_iteration real_env example_params example_XX 1 example_entry
     = Inr (Next, example_t, example_after)"
  by (simp add: example_defs example_t_def example_after_def model_defs Let_def)

lemma example_loop:
  "em_loop real_env example_params example_XX 1 0 example_entry = Inr (example_t, example_after)"
proof -
  have cyc: "p_cyc example_params = 1"
    by (simp add: example_params_def run_params_def)
  show ?thesis
    by (subst em_loop.simps) (simp add: example_iteration[unfolded One_nat_def] em_loop_done cyc)
qed

lemma example_run:
  "\<exists>st'. approx_fabia_cm_f real_env 1 1 1 [1] [1] [1] [0] [1] 1 0 (1 / 1000) 0 0 0 (1 / 2) 0 1 = Inr st'"
  by (simp add: model_defs Let_def)

text \<open>The example run is an instance: it ends on the non-collapse path.\<close>

theorem final_pass_keeps_lapla_witness:
  "\<exists>st' t st.
     approx_fabia_cm_f real_env 1 1 1 [1] [1] [1] [0] [1] 1 0 (1 / 1000) 0 0 0 (1 / 2) 0 1 = Inr st'
     \<and> em_loop real_env example_params example_XX 1 0 example_entry = Inr (t, st)
     \<and> st_lapla st' = st_lapla st \<and> st_lapla st' = [1]"
proof -
  obtain st' where run:
    "approx_fabia_cm_f real_env 1 1 1 [1] [1] [1] [0] [1] 1 0 (1 / 1000) 0 0 0 (1 / 2) 0 1 = Inr st'"
    using example_run by blast
  have ok: "malloc_ok real_env 6" by (simp add: real_env_def)
  from final_pass_keeps_lapla[THEN conjunct2, THEN conjunct2, rule_format, OF conjI, OF ok run]
  obtain t st where
    "em_loop real_env example_params example_XX 1 0 example_entry = Inr (t, st)"
    "st_lapla st' = st_lapla st"
    unfolding example_defs by blast
  with run example_loop show ?thesis by (auto simp: example_after_def)
qed

text \<open>
  Claim C6 as stated fails: with \<open>cyc = 0\<close> the variable \<open>t\<close> still holds its
  initial \<open>0\<close>, which is below \<open>eps = 1/1000\<close>, so line 328 clears \<open>Z\<close>; the caller's
  \<open>Z = (5)\<close> comes back as \<open>(0)\<close>.
\<close>

theorem cyc_zero_clears_Z:
  "\<exists>st'. approx_fabia_cm_f real_env 1 1 1 [1] [1] [1] [5] [1] 0 0 (1 / 1000) 0 0 0 (1 / 2) 0 1 = Inr st'
         \<and> st_Z st' = [0] \<and> st_Z st' \<noteq> [5]"
  by (simp add: model_defs Let_def)

theorem cyc_zero_keeps_L_Psi_lapla_witness:
  "\<exists>st'. approx_fabia_cm_f real_env 1 1 1 [1] [1] [1] [5] [1] 0 0 (1 / 1000) 0 0 0 (1 / 2) 0 1 = Inr st'
         \<and> st_L st' = [1] \<and> st_Psi st' = [1] \<and> st_lapla st' = [1]"
  using cyc_zero_keeps_L_Psi_lapla[of real_env 1 1 1 "[1]" "[1]" "[1]" "[5]" "[1]" 0 "1 / 1000" 0 0 0 "1 / 2" 0 1]
  by (simp add: real_env_def)

text \<open>
  Claim C7. Only the last of the seven pointers is tested (line 131). When the
  second allocation (\<^verbatim>\<open>sum2_\<close>) fails and the others succeed, the run does not take
  the out-of-memory return: it enters the loop and clears \<^verbatim>\<open>sum2_\<close> through the null
  pointer on line 185.
\<close>

theorem unchecked_allocation_failure:
  "approx_fabia_cm_f (real_env\<lparr>malloc_ok := (\<lambda>b. b \<noteq> 1)\<rparr>)
     1 1 1 [1] [1] [1] [0] [1] 1 0 (1 / 1000) 0 0 0 (1 / 2) 0 1 = Inl NullPointer"
  by (simp add: model_defs Let_def)



lemma collapse_update:
  "m_update real_env collapse_params collapse_XX (e_step real_env collapse_params 1 example_entry)
     = Inr (0, collapse_updated)"
  by (simp add: example_defs collapse_params_def collapse_XX_def collapse_updated_def model_defs Let_def)

text \<open>The run on \<open>X = (0)\<close> is an instance: \<open>d = (0)\<close> there.\<close>

theorem collapse_exit_taken_witness:
  "m_update real_env collapse_params collapse_XX (e_step real_env collapse_params 1 example_entry)
     = Inr (0, collapse_updated)
   \<and> em_iteration real_env collapse_params collapse_XX 1 example_entry =
       Inr (Break, 0, collapse_updated\<lparr>st_Psi := [1 / 1000], st_lapla := [1 / 1000],
                                       st_out := [BailingOut 0 (1 / 1000)]\<rparr>)
   \<and> em_loop real_env collapse_params collapse_XX 1 0 example_entry =
       Inr (0, collapse_updated\<lparr>st_Psi := [1 / 1000], st_lapla := [1 / 1000],
                                st_out := [BailingOut 0 (1 / 1000)]\<rparr>)
   \<and> last_update real_env collapse_params 0
        (collapse_updated\<lparr>st_Psi := [1 / 1000], st_lapla := [1 / 1000],
                          st_out := [BailingOut 0 (1 / 1000)]\<rparr>) =
       Inr (collapse_updated\<lparr>st_Psi := [1 / 1000], st_lapla := [1 / 1000], st_Z := [0],
                             st_out := [BailingOut 0 (1 / 1000), TimingSummary]\<rparr>)"
proof -
  have P: "p_n collapse_params = 1" "p_k collapse_params = 1" "p_l collapse_params = 1"
    "p_eps collapse_params = 1 / 1000" "p_cyc collapse_params = 1"
    by (simp_all add: collapse_params_def run_params_def)
  have lens: "length (st_Psi example_entry) = p_n collapse_params"
    "length (st_lapla example_entry) = p_k collapse_params * p_l collapse_params"
    "length (st_Z example_entry) = p_k collapse_params * p_l collapse_params"
    by (simp_all add: P example_entry_def entry_state_def)
  have alloc: "\<forall>b<7. malloc_ok real_env b" by (simp add: real_env_def)
  have iter: "1 \<le> p_cyc collapse_params" by (simp add: P)
  have n: "0 < p_n collapse_params" by (simp add: P)
  have small: "\<forall>i<p_n collapse_params.
        \<bar>fold (\<lambda>i2 s. s + st_L collapse_updated ! (i + i2 * p_n collapse_params)
                         * st_sum1 collapse_updated ! (i + i2 * p_n collapse_params))
           [0..<p_k collapse_params] 0\<bar> < p_eps collapse_params"
    by (simp add: P collapse_updated_def)
  from collapse_exit_taken[OF lens alloc iter collapse_update n small, of 0] collapse_update
  show ?thesis
    by (simp add: Let_def P example_entry_def entry_state_def)
qed








end
